theory Spec2Isabelle
  imports Main "HOL-Library.Sublist"
begin

section \<open>Submitted form data\<close>

text \<open>
  The repository holds two Flask programs over one \<open>users\<close> table:
  \<^item> \<open>src/app.py\<close>, the variant with passwords and a session (below: the auth variant);
  \<^item> \<open>src/flask_user_profiles_app.py\<close>, the variant with a public listing (below: the
    no-auth variant).
  Both read a POSTed form through WTForms fields. The \<open>data\<close> of a \<open>StringField\<close>,
  \<open>EmailField\<close> or \<open>TextAreaField\<close> is the submitted string, or \<open>None\<close> when the
  field is absent from the request. Strings are lists of characters; \<open>length\<close> is
  Python's \<open>len\<close>.
\<close>

type_synonym field_data = "string option"

text \<open>
  What an \<open>IntegerField\<close> receives: nothing (the field is absent from the request), a
  string that \<open>int()\<close> refuses (the empty string of an empty input box included), or a
  string that \<open>int()\<close> reads as the given integer.
\<close>

datatype int_input = NoInput | NotAnInteger | IntValue int

datatype http_method = GET | POST

datatype field = FUsername | FEmail | FPassword | FFullName | FAge | FBio

text \<open>The kind of rule a validation message comes from.\<close>

datatype rule = Required | LengthRule | EmailSyntax | NumberRangeRule | NotInteger | AlreadyTaken

subsection \<open>Python's \<open>str.strip()\<close>\<close>

text \<open>
  \<open>str.strip()\<close> removes leading and trailing characters for which \<open>str.isspace()\<close>
  holds; among the code points below 256 these are 9 to 13, 28 to 32, 133 and 160.
\<close>

definition py_isspace :: "char \<Rightarrow> bool" where
  "py_isspace c =
     (let n = (of_char c :: nat)
      in (9 \<le> n \<and> n \<le> 13) \<or> (28 \<le> n \<and> n \<le> 32) \<or> n = 133 \<or> n = 160)"

definition strip :: "string \<Rightarrow> string" where
  "strip s = rev (dropWhile py_isspace (rev (dropWhile py_isspace s)))"

text \<open>\<open>(field.data or '')\<close>\<close>

definition or_empty :: "field_data \<Rightarrow> string" where
  "or_empty d = (case d of None \<Rightarrow> [] | Some s \<Rightarrow> s)"

text \<open>\<open>x if x else None\<close> for a string and for an integer: the falsy values become \<open>None\<close>.\<close>

definition truthy_str :: "field_data \<Rightarrow> string option" where
  "truthy_str d = (case d of None \<Rightarrow> None | Some s \<Rightarrow> if s = [] then None else Some s)"

definition truthy_int :: "int option \<Rightarrow> int option" where
  "truthy_int d = (case d of None \<Rightarrow> None | Some n \<Rightarrow> if n = 0 then None else Some n)"

section \<open>The validators of the form library\<close>

text \<open>
  A validator either returns (\<open>Pass\<close>), raises \<open>ValidationError\<close> (\<open>Fail\<close>: the
  message is recorded and the chain goes on) or raises \<open>StopValidation\<close> (\<open>Stop\<close>: the
  chain ends). \<open>DataRequired\<close> empties the field's error list before it stops the chain.
\<close>

datatype verdict = Pass | Fail rule | Stop rule

fun run_validation_chain :: "rule list \<Rightarrow> verdict list \<Rightarrow> rule list" where
  "run_validation_chain errs [] = errs"
| "run_validation_chain errs (Pass # vs) = run_validation_chain errs vs"
| "run_validation_chain errs (Fail r # vs) = run_validation_chain (errs @ [r]) vs"
| "run_validation_chain errs (Stop r # vs) = [r]"

text \<open>
  \<open>DataRequired\<close>: the data is truthy and, being a string, non-empty after \<open>strip()\<close>.
\<close>

definition DataRequired :: "field_data \<Rightarrow> verdict" where
  "DataRequired d =
     (case d of
        None \<Rightarrow> Stop Required
      | Some s \<Rightarrow> if s \<noteq> [] \<and> strip s \<noteq> [] then Pass else Stop Required)"

text \<open>
  \<open>Length(min, max)\<close>: \<open>len(field.data)\<close>, or 0 for missing data, lies in the bounds;
  \<open>None\<close> stands for the library's \<open>max = -1\<close> (no upper bound).
\<close>

definition Length :: "nat \<Rightarrow> nat option \<Rightarrow> field_data \<Rightarrow> verdict" where
  "Length lo hi d =
     (let n = (case d of None \<Rightarrow> 0 | Some s \<Rightarrow> length s)
      in if lo \<le> n \<and> (case hi of None \<Rightarrow> True | Some h \<Rightarrow> n \<le> h) then Pass
         else Fail LengthRule)"

text \<open>
  \<open>Email()\<close> hands the string to the \<open>email_validator\<close> package. Its decision is the
  parameter \<open>email_ok\<close> of everything below; missing data is refused.
\<close>

definition Email :: "(string \<Rightarrow> bool) \<Rightarrow> field_data \<Rightarrow> verdict" where
  "Email email_ok d =
     (case d of
        None \<Rightarrow> Fail EmailSyntax
      | Some s \<Rightarrow> if email_ok s then Pass else Fail EmailSyntax)"

text \<open>\<open>NumberRange(min, max)\<close>: the data is not \<open>None\<close> and lies in the bounds.\<close>

definition NumberRange :: "int \<Rightarrow> int \<Rightarrow> int option \<Rightarrow> verdict" where
  "NumberRange lo hi d =
     (case d of
        None \<Rightarrow> Fail NumberRangeRule
      | Some n \<Rightarrow> if lo \<le> n \<and> n \<le> hi then Pass else Fail NumberRangeRule)"

text \<open>
  \<open>IntegerField.process_formdata\<close>: without input the data keeps its default \<open>None\<close>;
  input that \<open>int()\<close> refuses sets the data to \<open>None\<close> and records a processing error,
  with which the field's validation starts.
\<close>

definition IntegerField_data :: "int_input \<Rightarrow> int option" where
  "IntegerField_data i = (case i of IntValue n \<Rightarrow> Some n | _ \<Rightarrow> None)"

definition IntegerField_process_errors :: "int_input \<Rightarrow> rule list" where
  "IntegerField_process_errors i = (case i of NotAnInteger \<Rightarrow> [NotInteger] | _ \<Rightarrow> [])"

text \<open>
  A concrete, deliberately narrow address check, used only where a closed statement needs
  a value for \<open>email_ok\<close>: lower-case letters and digits before the \<open>@\<close> (1 to 64 of
  them), one label of 1 to 63 such characters after it, and the top-level domain
  \<open>com\<close>, \<open>org\<close> or \<open>net\<close>.
\<close>

definition plain_char :: "char \<Rightarrow> bool" where
  "plain_char c = (c \<in> set ''abcdefghijklmnopqrstuvwxyz0123456789'')"

definition plain_email :: "string \<Rightarrow> bool" where
  "plain_email s =
     (let local_part = takeWhile (\<lambda>c. c \<noteq> CHR ''@'') s;
          rest = dropWhile (\<lambda>c. c \<noteq> CHR ''@'') s;
          domain = tl rest;
          label = takeWhile (\<lambda>c. c \<noteq> CHR ''.'') domain;
          tld = dropWhile (\<lambda>c. c \<noteq> CHR ''.'') domain
      in rest \<noteq> [] \<and> local_part \<noteq> [] \<and> length local_part \<le> 64 \<and> list_all plain_char local_part
         \<and> label \<noteq> [] \<and> length label \<le> 63 \<and> list_all plain_char label
         \<and> (tld = ''.com'' \<or> tld = ''.org'' \<or> tld = ''.net''))"

section \<open>The \<open>users\<close> table\<close>

text \<open>
  The columns both variants have (\<open>init_db\<close> of either file); \<open>age\<close> and \<open>bio\<close> are
  nullable. The auth variant adds \<open>password\<close>, \<open>created_at\<close> and \<open>updated_at\<close>.
  Timestamps are readings of a clock, as natural numbers.
\<close>

record user =
  u_id :: nat
  u_username :: string
  u_email :: string
  u_full_name :: string
  u_age :: "int option"
  u_bio :: "string option"

record auth_user = user +
  u_password :: string
  u_created_at :: nat
  u_updated_at :: nat

text \<open>
  A table is its rows in insertion order and the \<open>AUTOINCREMENT\<close> counter (the largest
  id ever assigned). A statement that fails leaves the table as it was.
\<close>

record 'r table =
  rows :: "'r list"
  seq :: nat

type_synonym auth_db = "auth_user table"
type_synonym na_db = "user table"

datatype py_exception = IntegrityError | AttributeError | TypeError | TemplateError

text \<open>\<open>SELECT ... WHERE col = ?\<close> followed by \<open>fetchone()\<close>.\<close>

definition find_by_id :: "('a user_scheme) table \<Rightarrow> nat \<Rightarrow> ('a user_scheme) option" where
  "find_by_id db i = find (\<lambda>r. u_id r = i) (rows db)"

definition find_by_username :: "('a user_scheme) table \<Rightarrow> string \<Rightarrow> ('a user_scheme) option" where
  "find_by_username db un = find (\<lambda>r. u_username r = un) (rows db)"

definition find_by_email :: "('a user_scheme) table \<Rightarrow> string \<Rightarrow> ('a user_scheme) option" where
  "find_by_email db em = find (\<lambda>r. u_email r = em) (rows db)"

text \<open>\<open>SELECT id FROM users WHERE email = ? AND id != ?\<close>\<close>

definition find_by_email_excluding_id ::
  "('a user_scheme) table \<Rightarrow> string \<Rightarrow> nat \<Rightarrow> ('a user_scheme) option" where
  "find_by_email_excluding_id db em i = find (\<lambda>r. u_email r = em \<and> u_id r \<noteq> i) (rows db)"

text \<open>
  The two \<open>UNIQUE\<close> constraints. A new row violates them when some row has its username
  or its email; a changed row when some other row has.
\<close>

definition unique_violation_insert :: "('a user_scheme) list \<Rightarrow> string \<Rightarrow> string \<Rightarrow> bool" where
  "unique_violation_insert rs un em = list_ex (\<lambda>r. u_username r = un \<or> u_email r = em) rs"

definition unique_violation_update ::
  "('a user_scheme) list \<Rightarrow> nat \<Rightarrow> string \<Rightarrow> string \<Rightarrow> bool" where
  "unique_violation_update rs i un em =
     list_ex (\<lambda>r. u_id r \<noteq> i \<and> (u_username r = un \<or> u_email r = em)) rs"

text \<open>The \<open>UNIQUE\<close> constraint on \<open>email\<close> alone, for a write that keeps the username.\<close>

definition email_taken_by_other :: "('a user_scheme) list \<Rightarrow> nat \<Rightarrow> string \<Rightarrow> bool" where
  "email_taken_by_other rs i em = list_ex (\<lambda>r. u_id r \<noteq> i \<and> u_email r = em) rs"

text \<open>
  \<open>AUTOINCREMENT\<close>: the id of a new row is one more than the largest id the table has
  ever held.
\<close>

definition next_id :: "('a user_scheme) table \<Rightarrow> nat" where
  "next_id db = Suc (fold max (map u_id (rows db)) (seq db))"

subsection \<open>Writes of the auth variant\<close>

text \<open>
  \<open>INSERT INTO users (username, email, password, full_name, age, bio)\<close> of \<open>register\<close>
  in \<open>src/app.py\<close>. The parameters are what the handler passes: form data that may be
  \<open>None\<close> for the three \<open>NOT NULL\<close> text columns. Both timestamps default to the
  clock.
\<close>

definition auth_insert ::
  "auth_db \<Rightarrow> field_data \<Rightarrow> field_data \<Rightarrow> string \<Rightarrow> field_data \<Rightarrow> int option \<Rightarrow> string option
     \<Rightarrow> nat \<Rightarrow> py_exception + auth_db" where
  "auth_insert db username email password full_name age bio now =
     (case (username, email, full_name) of
        (Some un, Some em, Some fn) \<Rightarrow>
          if unique_violation_insert (rows db) un em then Inl IntegrityError
          else Inr (db\<lparr>rows := rows db @
                      [\<lparr>u_id = next_id db, u_username = un, u_email = em, u_full_name = fn,
                        u_age = age, u_bio = bio, u_password = password,
                        u_created_at = now, u_updated_at = now\<rparr>],
                    seq := next_id db\<rparr>)
      | _ \<Rightarrow> Inl IntegrityError)"

text \<open>
  \<open>UPDATE users SET email = ?, full_name = ?, age = ?, bio = ?, updated_at =
  CURRENT_TIMESTAMP WHERE id = ?\<close> of \<open>update_profile\<close> in \<open>src/app.py\<close>. Without a row
  of that id nothing is checked and nothing changes.
\<close>

definition auth_update ::
  "auth_db \<Rightarrow> nat \<Rightarrow> field_data \<Rightarrow> field_data \<Rightarrow> int option \<Rightarrow> string option \<Rightarrow> nat
     \<Rightarrow> py_exception + auth_db" where
  "auth_update db i email full_name age bio now =
     (case find_by_id db i of
        None \<Rightarrow> Inr db
      | Some old \<Rightarrow>
          (case (email, full_name) of
             (Some em, Some fn) \<Rightarrow>
               if email_taken_by_other (rows db) i em then Inl IntegrityError
               else Inr (db\<lparr>rows := map (\<lambda>r. if u_id r = i
                                               then r\<lparr>u_email := em, u_full_name := fn, u_age := age,
                                                      u_bio := bio, u_updated_at := now\<rparr>
                                               else r) (rows db)\<rparr>)
           | _ \<Rightarrow> Inl IntegrityError))"

subsection \<open>Writes of the no-auth variant\<close>

text \<open>
  \<open>INSERT INTO users (username, full_name, email, age, bio)\<close> of \<open>register\<close> and of
  the start-up code in \<open>src/flask_user_profiles_app.py\<close>; every text parameter is a
  string there.
\<close>

definition na_insert ::
  "na_db \<Rightarrow> string \<Rightarrow> string \<Rightarrow> string \<Rightarrow> int option \<Rightarrow> string \<Rightarrow> py_exception + na_db" where
  "na_insert db un fn em age bio =
     (if unique_violation_insert (rows db) un em then Inl IntegrityError
      else Inr (db\<lparr>rows := rows db @
                  [\<lparr>u_id = next_id db, u_username = un, u_email = em, u_full_name = fn,
                    u_age = age, u_bio = Some bio\<rparr>],
                seq := next_id db\<rparr>))"

text \<open>
  \<open>UPDATE users SET username = ?, full_name = ?, email = ?, age = ?, bio = ? WHERE id = ?\<close>
  of \<open>update\<close> in \<open>src/flask_user_profiles_app.py\<close>.
\<close>

definition na_update ::
  "na_db \<Rightarrow> nat \<Rightarrow> string \<Rightarrow> string \<Rightarrow> string \<Rightarrow> int option \<Rightarrow> string \<Rightarrow> py_exception + na_db" where
  "na_update db i un fn em age bio =
     (case find_by_id db i of
        None \<Rightarrow> Inr db
      | Some old \<Rightarrow>
          if unique_violation_update (rows db) i un em then Inl IntegrityError
          else Inr (db\<lparr>rows := map (\<lambda>r. if u_id r = i
                                          then r\<lparr>u_username := un, u_full_name := fn, u_email := em,
                                                 u_age := age, u_bio := Some bio\<rparr>
                                          else r) (rows db)\<rparr>))"

section \<open>What a request handler answers\<close>

text \<open>
  \<^item> \<open>Registered\<close>, \<open>Updated\<close>: the write was committed; success message and redirect.
  \<^item> \<open>FormErrors\<close>: validation failed; the form is rendered again with its messages.
  \<^item> \<open>FormShown\<close>: a GET; the form is rendered.
  \<^item> \<open>Conflict\<close>: \<open>sqlite3.IntegrityError\<close> was caught; error message, form rendered again.
  \<^item> \<open>NotFound\<close>: no row of that id; message and redirect.
  \<^item> \<open>LoginRequired\<close>: the session holds no user id; message and redirect.
  \<^item> \<open>ProfileShown\<close>: the profile page of the auth variant, with the selected columns of
    the row and its two timestamps.
  \<^item> \<open>Uncaught\<close>: an exception left the handler.
\<close>

datatype outcome =
    Registered
  | Updated
  | FormErrors "(field \<times> rule) list"
  | FormShown
  | Conflict
  | NotFound
  | LoginRequired
  | RedirectProfile
  | RedirectRegister
  | LoggedOut
  | ProfileShown user nat nat
  | Listing "user list"
  | Uncaught py_exception

section \<open>The auth variant (\<open>src/app.py\<close>)\<close>

text \<open>The session cookie: empty, or \<open>user_id\<close> and \<open>username\<close>.\<close>

type_synonym session = "(nat \<times> string) option"

record reg_form =
  rf_username :: field_data
  rf_email :: field_data
  rf_password :: field_data
  rf_full_name :: field_data
  rf_age :: int_input
  rf_bio :: field_data

record upd_form =
  uf_email :: field_data
  uf_full_name :: field_data
  uf_age :: int_input
  uf_bio :: field_data

text \<open>
  The in-line validators open a connection of their own; \<open>dbv\<close> is the table as that
  connection sees it. A \<open>None\<close> parameter matches no row.
\<close>

definition RegistrationForm_validate_username :: "auth_db \<Rightarrow> field_data \<Rightarrow> verdict" where
  "RegistrationForm_validate_username dbv d =
     (case d of
        None \<Rightarrow> Pass
      | Some un \<Rightarrow> (case find_by_username dbv un of None \<Rightarrow> Pass | Some _ \<Rightarrow> Fail AlreadyTaken))"

definition RegistrationForm_validate_email :: "auth_db \<Rightarrow> field_data \<Rightarrow> verdict" where
  "RegistrationForm_validate_email dbv d =
     (case d of
        None \<Rightarrow> Pass
      | Some em \<Rightarrow> (case find_by_email dbv em of None \<Rightarrow> Pass | Some _ \<Rightarrow> Fail AlreadyTaken))"

definition UpdateProfileForm_validate_email :: "auth_db \<Rightarrow> session \<Rightarrow> field_data \<Rightarrow> verdict" where
  "UpdateProfileForm_validate_email dbv sess d =
     (case sess of
        None \<Rightarrow> Pass
      | Some (uid, _) \<Rightarrow>
          (case d of
             None \<Rightarrow> Pass
           | Some em \<Rightarrow>
               (case find_by_email_excluding_id dbv em uid of
                  None \<Rightarrow> Pass
                | Some _ \<Rightarrow> Fail AlreadyTaken)))"

text \<open>
  \<open>form.validate()\<close> with a valid CSRF token: every field runs its validators and then
  its in-line validator; the result lists the failures field by field.
\<close>

definition RegistrationForm_validate ::
  "(string \<Rightarrow> bool) \<Rightarrow> auth_db \<Rightarrow> reg_form \<Rightarrow> (field \<times> rule) list" where
  "RegistrationForm_validate email_ok dbv f =
     map (Pair FUsername)
       (run_validation_chain []
          [DataRequired (rf_username f), Length 3 (Some 20) (rf_username f),
           RegistrationForm_validate_username dbv (rf_username f)])
     @ map (Pair FEmail)
       (run_validation_chain []
          [DataRequired (rf_email f), Email email_ok (rf_email f),
           RegistrationForm_validate_email dbv (rf_email f)])
     @ map (Pair FPassword)
       (run_validation_chain []
          [DataRequired (rf_password f), Length 6 None (rf_password f)])
     @ map (Pair FFullName)
       (run_validation_chain []
          [DataRequired (rf_full_name f), Length 2 (Some 100) (rf_full_name f)])
     @ map (Pair FAge)
       (run_validation_chain (IntegerField_process_errors (rf_age f))
          [NumberRange 1 150 (IntegerField_data (rf_age f))])
     @ map (Pair FBio)
       (run_validation_chain [] [Length 0 (Some 500) (rf_bio f)])"

definition UpdateProfileForm_validate ::
  "(string \<Rightarrow> bool) \<Rightarrow> auth_db \<Rightarrow> session \<Rightarrow> upd_form \<Rightarrow> (field \<times> rule) list" where
  "UpdateProfileForm_validate email_ok dbv sess f =
     map (Pair FEmail)
       (run_validation_chain []
          [DataRequired (uf_email f), Email email_ok (uf_email f),
           UpdateProfileForm_validate_email dbv sess (uf_email f)])
     @ map (Pair FFullName)
       (run_validation_chain []
          [DataRequired (uf_full_name f), Length 2 (Some 100) (uf_full_name f)])
     @ map (Pair FAge)
       (run_validation_chain (IntegerField_process_errors (uf_age f))
          [NumberRange 1 150 (IntegerField_data (uf_age f))])
     @ map (Pair FBio)
       (run_validation_chain [] [Length 0 (Some 500) (uf_bio f)])"

text \<open>
  \<open>register\<close> of \<open>src/app.py\<close>. \<open>generate_password_hash\<close> is the library's salted
  hash, as a function of the salt it draws and of the password; \<open>salt\<close> is the salt of
  this call; \<open>now\<close> is the clock; \<open>dbv\<close> is the table the
  validators read and \<open>db\<close> the table the \<open>INSERT\<close> meets (the same table unless
  another request committed in between). The result is the answer, the table and the
  session afterwards.
\<close>

definition register ::
  "(string \<Rightarrow> bool) \<Rightarrow> (string \<Rightarrow> string \<Rightarrow> string) \<Rightarrow> string \<Rightarrow> nat \<Rightarrow> auth_db \<Rightarrow> auth_db
     \<Rightarrow> session \<Rightarrow> http_method \<Rightarrow> reg_form \<Rightarrow> outcome \<times> auth_db \<times> session" where
  "register email_ok generate_password_hash salt now dbv db sess m f =
     (if m = POST then
        (case RegistrationForm_validate email_ok dbv f of
           [] \<Rightarrow>
             (case rf_password f of
                None \<Rightarrow> (Uncaught AttributeError, db, sess)
              | Some pw \<Rightarrow>
                  (case auth_insert db (rf_username f) (rf_email f) (generate_password_hash salt pw)
                          (rf_full_name f) (truthy_int (IntegerField_data (rf_age f)))
                          (truthy_str (rf_bio f)) now of
                     Inl IntegrityError \<Rightarrow> (Conflict, db, sess)
                   | Inl e \<Rightarrow> (Uncaught e, db, sess)
                   | Inr db' \<Rightarrow>
                       (case Option.bind (rf_username f) (find_by_username db') of
                          None \<Rightarrow> (Uncaught TypeError, db', sess)
                        | Some u \<Rightarrow> (Registered, db', Some (u_id u, u_username u)))))
         | errs \<Rightarrow> (FormErrors errs, db, sess))
      else (FormShown, db, sess))"

text \<open>
  \<open>update_profile\<close> of \<open>src/app.py\<close>. The \<open>UPDATE\<close> stands outside any \<open>try\<close>: an
  exception it raises leaves the handler.
\<close>

definition update_profile ::
  "(string \<Rightarrow> bool) \<Rightarrow> nat \<Rightarrow> auth_db \<Rightarrow> auth_db \<Rightarrow> session \<Rightarrow> http_method \<Rightarrow> upd_form
     \<Rightarrow> outcome \<times> auth_db \<times> session" where
  "update_profile email_ok now dbv db sess m f =
     (case sess of
        None \<Rightarrow> (LoginRequired, db, sess)
      | Some (uid, _) \<Rightarrow>
          (case find_by_id db uid of
             None \<Rightarrow> (NotFound, db, None)
           | Some _ \<Rightarrow>
               if m = POST then
                 (case UpdateProfileForm_validate email_ok dbv sess f of
                    [] \<Rightarrow>
                      (case auth_update db uid (uf_email f) (uf_full_name f)
                              (truthy_int (IntegerField_data (uf_age f))) (truthy_str (uf_bio f)) now of
                         Inl e \<Rightarrow> (Uncaught e, db, sess)
                       | Inr db' \<Rightarrow> (Updated, db', sess))
                  | errs \<Rightarrow> (FormErrors errs, db, sess))
               else (FormShown, db, sess)))"

text \<open>\<open>index\<close>, \<open>profile\<close> and \<open>logout\<close> of \<open>src/app.py\<close>.\<close>

definition index :: "auth_db \<Rightarrow> session \<Rightarrow> outcome \<times> auth_db \<times> session" where
  "index db sess = (case sess of None \<Rightarrow> (RedirectRegister, db, sess) | Some _ \<Rightarrow> (RedirectProfile, db, sess))"

definition profile :: "auth_db \<Rightarrow> session \<Rightarrow> outcome \<times> auth_db \<times> session" where
  "profile db sess =
     (case sess of
        None \<Rightarrow> (LoginRequired, db, sess)
      | Some (uid, _) \<Rightarrow>
          (case find_by_id db uid of
             None \<Rightarrow> (NotFound, db, None)
           | Some r \<Rightarrow>
               (ProfileShown
                  \<lparr>u_id = u_id r, u_username = u_username r, u_email = u_email r,
                   u_full_name = u_full_name r, u_age = u_age r, u_bio = u_bio r\<rparr>
                  (u_created_at r) (u_updated_at r), db, sess)))"

definition logout :: "auth_db \<Rightarrow> session \<Rightarrow> outcome \<times> auth_db \<times> session" where
  "logout db sess = (LoggedOut, db, None)"

text \<open>
  One request to the auth variant, with the cookie it carries (and, for a registration,
  the salt the hash function draws and the clock). A write request may have
  been validated against an older table (\<open>Some dbv\<close>) than the one its write meets;
  \<open>None\<close> is the request that nothing interleaves with.
\<close>

datatype auth_request =
    Index session
  | Register "auth_db option" session http_method reg_form string nat
  | Profile session
  | UpdateProfile "auth_db option" session http_method upd_form nat
  | Logout session

definition auth_handle ::
  "(string \<Rightarrow> bool) \<Rightarrow> (string \<Rightarrow> string \<Rightarrow> string) \<Rightarrow> auth_request \<Rightarrow> auth_db \<Rightarrow> outcome \<times> auth_db \<times> session"
  where
  "auth_handle email_ok generate_password_hash req db =
     (case req of
        Index sess \<Rightarrow> index db sess
      | Register stale sess m f salt now \<Rightarrow>
          register email_ok generate_password_hash salt now (case stale of None \<Rightarrow> db | Some dbv \<Rightarrow> dbv)
            db sess m f
      | Profile sess \<Rightarrow> profile db sess
      | UpdateProfile stale sess m f now \<Rightarrow>
          update_profile email_ok now (case stale of None \<Rightarrow> db | Some dbv \<Rightarrow> dbv) db sess m f
      | Logout sess \<Rightarrow> logout db sess)"

definition auth_run ::
  "(string \<Rightarrow> bool) \<Rightarrow> (string \<Rightarrow> string \<Rightarrow> string) \<Rightarrow> auth_request list \<Rightarrow> auth_db \<Rightarrow> auth_db" where
  "auth_run email_ok generate_password_hash reqs db =
     fold (\<lambda>req d. fst (snd (auth_handle email_ok generate_password_hash req d))) reqs db"

text \<open>The table \<open>init_db\<close> creates.\<close>

definition empty_table :: "'r table" where
  "empty_table = \<lparr>rows = [], seq = 0\<rparr>"

section \<open>The no-auth variant (\<open>src/flask_user_profiles_app.py\<close>)\<close>

record profile_form =
  pf_username :: field_data
  pf_full_name :: field_data
  pf_email :: field_data
  pf_age :: int_input
  pf_bio :: field_data

text \<open>\<open>ProfileForm\<close> has no in-line validator: its validation reads no table.\<close>

definition ProfileForm_validate :: "(string \<Rightarrow> bool) \<Rightarrow> profile_form \<Rightarrow> (field \<times> rule) list" where
  "ProfileForm_validate email_ok f =
     map (Pair FUsername)
       (run_validation_chain []
          [DataRequired (pf_username f), Length 3 (Some 30) (pf_username f)])
     @ map (Pair FFullName)
       (run_validation_chain []
          [DataRequired (pf_full_name f), Length 2 (Some 100) (pf_full_name f)])
     @ map (Pair FEmail)
       (run_validation_chain []
          [DataRequired (pf_email f), Email email_ok (pf_email f), Length 0 (Some 120) (pf_email f)])
     @ map (Pair FAge)
       (run_validation_chain (IntegerField_process_errors (pf_age f))
          [NumberRange 0 120 (IntegerField_data (pf_age f))])
     @ map (Pair FBio)
       (run_validation_chain [] [Length 0 (Some 500) (pf_bio f)])"

text \<open>\<open>register\<close> of \<open>src/flask_user_profiles_app.py\<close>.\<close>

definition na_register :: "(string \<Rightarrow> bool) \<Rightarrow> na_db \<Rightarrow> http_method \<Rightarrow> profile_form \<Rightarrow> outcome \<times> na_db" where
  "na_register email_ok db m f =
     (if m = POST then
        (case ProfileForm_validate email_ok f of
           [] \<Rightarrow>
             (case na_insert db (strip (or_empty (pf_username f))) (strip (or_empty (pf_full_name f)))
                     (strip (or_empty (pf_email f))) (IntegerField_data (pf_age f))
                     (strip (or_empty (pf_bio f))) of
                Inl IntegrityError \<Rightarrow> (Conflict, db)
              | Inl e \<Rightarrow> (Uncaught e, db)
              | Inr db' \<Rightarrow> (Registered, db'))
         | errs \<Rightarrow> (FormErrors errs, db))
      else (FormShown, db))"

text \<open>\<open>update\<close> of \<open>src/flask_user_profiles_app.py\<close>.\<close>

definition na_update_handler ::
  "(string \<Rightarrow> bool) \<Rightarrow> na_db \<Rightarrow> nat \<Rightarrow> http_method \<Rightarrow> profile_form \<Rightarrow> outcome \<times> na_db" where
  "na_update_handler email_ok db user_id m f =
     (case find_by_id db user_id of
        None \<Rightarrow> (NotFound, db)
      | Some _ \<Rightarrow>
          if m = GET then (FormShown, db)
          else
            (case ProfileForm_validate email_ok f of
               [] \<Rightarrow>
                 (case na_update db user_id (strip (or_empty (pf_username f)))
                         (strip (or_empty (pf_full_name f))) (strip (or_empty (pf_email f)))
                         (IntegerField_data (pf_age f)) (strip (or_empty (pf_bio f))) of
                    Inl IntegrityError \<Rightarrow> (Conflict, db)
                  | Inl e \<Rightarrow> (Uncaught e, db)
                  | Inr db' \<Rightarrow> (Updated, db'))
             | errs \<Rightarrow> (FormErrors errs, db)))"

text \<open>
  \<open>index\<close> (newest first) and \<open>profile\<close> of \<open>src/flask_user_profiles_app.py\<close>.
  For a row that exists \<open>profile\<close> renders \<open>PROFILE_TEMPLATE\<close>, whose expression
  \<open>user['age'] is not None\<close> names a test \<open>None\<close> that the template engine does not
  have (its test is \<open>none\<close>): rendering raises a template error, which leaves the
  handler. The table is not touched.
\<close>

definition na_index :: "na_db \<Rightarrow> outcome \<times> na_db" where
  "na_index db = (Listing (rev (rows db)), db)"

definition na_profile :: "na_db \<Rightarrow> nat \<Rightarrow> outcome \<times> na_db" where
  "na_profile db user_id =
     (case find_by_id db user_id of
        None \<Rightarrow> (NotFound, db)
      | Some r \<Rightarrow> (Uncaught TemplateError, db))"

datatype na_request =
    NaIndex
  | NaRegister http_method profile_form
  | NaProfile nat
  | NaUpdate nat http_method profile_form

definition na_handle :: "(string \<Rightarrow> bool) \<Rightarrow> na_request \<Rightarrow> na_db \<Rightarrow> outcome \<times> na_db" where
  "na_handle email_ok req db =
     (case req of
        NaIndex \<Rightarrow> na_index db
      | NaRegister m f \<Rightarrow> na_register email_ok db m f
      | NaProfile user_id \<Rightarrow> na_profile db user_id
      | NaUpdate user_id m f \<Rightarrow> na_update_handler email_ok db user_id m f)"

definition na_run :: "(string \<Rightarrow> bool) \<Rightarrow> na_request list \<Rightarrow> na_db \<Rightarrow> na_db" where
  "na_run email_ok reqs db = fold (\<lambda>req d. snd (na_handle email_ok req d)) reqs db"

text \<open>
  The start-up code of \<open>src/flask_user_profiles_app.py\<close>: two sample users go into a
  table that has no row; both inserts are committed together.
\<close>

definition na_seed :: "na_db \<Rightarrow> na_db" where
  "na_seed db =
     (if length (rows db) = 0 then
        (case na_insert db ''jdoe'' ''John Doe'' ''jdoe@example.com'' (Some 34)
                ''A short bio about John.'' of
           Inl _ \<Rightarrow> db
         | Inr db1 \<Rightarrow>
             (case na_insert db1 ''asmith'' ''Alice Smith'' ''alice@example.com'' (Some 28)
                     ''Alice loves coding and coffee.'' of
                Inl _ \<Rightarrow> db
              | Inr db2 \<Rightarrow> db2))
      else db)"

section \<open>The invariant of the table\<close>

text \<open>
  No two rows share a username or an email, and the ids grow strictly in insertion order
  (so no two rows share an id).
\<close>

definition table_ok :: "('a user_scheme) table \<Rightarrow> bool" where
  "table_ok db =
     (distinct (map u_username (rows db)) \<and> distinct (map u_email (rows db))
      \<and> sorted_wrt (<) (map u_id (rows db)))"

definition ids :: "('a user_scheme) table \<Rightarrow> nat list" where
  "ids db = map u_id (rows db)"

text \<open>The messages of one field, in the order they were recorded.\<close>

definition field_errors :: "field \<Rightarrow> (field \<times> rule) list \<Rightarrow> rule list" where
  "field_errors fld errs = map snd (filter (\<lambda>e. fst e = fld) errs)"

text \<open>A string with no whitespace at either end.\<close>

definition trimmed :: "string \<Rightarrow> bool" where
  "trimmed s = (s = [] \<or> (\<not> py_isspace (hd s) \<and> \<not> py_isspace (last s)))"

text \<open>The columns of the auth variant that no statement of \<open>src/app.py\<close> sets again.\<close>

definition frozen_columns :: "auth_user \<Rightarrow> nat \<times> string \<times> string \<times> nat" where
  "frozen_columns r = (u_id r, u_username r, u_password r, u_created_at r)"

text \<open>The table with every password column overwritten, and the cookie a request carries.\<close>

definition with_passwords :: "(auth_user \<Rightarrow> string) \<Rightarrow> auth_db \<Rightarrow> auth_db" where
  "with_passwords h db = db\<lparr>rows := map (\<lambda>r. r\<lparr>u_password := h r\<rparr>) (rows db)\<rparr>"

definition request_session :: "auth_request \<Rightarrow> session" where
  "request_session req =
     (case req of
        Index sess \<Rightarrow> sess
      | Register stale sess m f salt now \<Rightarrow> sess
      | Profile sess \<Rightarrow> sess
      | UpdateProfile stale sess m f now \<Rightarrow> sess
      | Logout sess \<Rightarrow> sess)"

section \<open>Sample requests\<close>

text \<open>
  Concrete inputs on which the statements below are exercised. \<open>sample_hash\<close> stands
  in for the library's hash function; nothing depends on its shape.
\<close>

definition sample_hash :: "string \<Rightarrow> string \<Rightarrow> string" where
  "sample_hash salt pw = ''scrypt$'' @ salt @ ''$'' @ rev pw"

definition alice :: reg_form where
  "alice = \<lparr>rf_username = Some ''alice'', rf_email = Some ''alice@mail.com'',
     rf_password = Some ''secret1'', rf_full_name = Some ''Alice A'', rf_age = IntValue 30,
     rf_bio = Some ''''\<rparr>"

definition alice_again :: reg_form where
  "alice_again = \<lparr>rf_username = Some ''alice'', rf_email = Some ''other@mail.com'',
     rf_password = Some ''hunter22'', rf_full_name = Some ''Alice B'', rf_age = IntValue 41,
     rf_bio = None\<rparr>"

definition alice_table :: auth_db where
  "alice_table =
     \<lparr>rows = [\<lparr>u_id = 1, u_username = ''alice'', u_email = ''alice@mail.com'',
                u_full_name = ''Alice A'', u_age = Some 30, u_bio = None,
                u_password = ''scrypt$salt$1terces'', u_created_at = 1, u_updated_at = 1\<rparr>],
      seq = 1\<rparr>"

definition jane :: profile_form where
  "jane = \<lparr>pf_username = Some ''  jane '', pf_full_name = Some ''Jane Roe'',
     pf_email = Some ''jane@mail.org'', pf_age = IntValue 0, pf_bio = Some ''''\<rparr>"

definition jane_again :: profile_form where
  "jane_again = \<lparr>pf_username = Some ''janet'', pf_full_name = Some ''Janet Roe'',
     pf_email = Some ''jane@mail.org'', pf_age = IntValue 52, pf_bio = None\<rparr>"

definition seeded_table :: na_db where
  "seeded_table =
     \<lparr>rows = [\<lparr>u_id = 1, u_username = ''jdoe'', u_email = ''jdoe@example.com'',
                u_full_name = ''John Doe'', u_age = Some 34,
                u_bio = Some ''A short bio about John.''\<rparr>,
              \<lparr>u_id = 2, u_username = ''asmith'', u_email = ''alice@example.com'',
                u_full_name = ''Alice Smith'', u_age = Some 28,
                u_bio = Some ''Alice loves coding and coffee.''\<rparr>],
      seq = 2\<rparr>"

definition jane_table :: na_db where
  "jane_table =
     \<lparr>rows = rows seeded_table @
              [\<lparr>u_id = 3, u_username = ''jane'', u_email = ''jane@mail.org'',
                u_full_name = ''Jane Roe'', u_age = Some 0, u_bio = Some ''''\<rparr>],
      seq = 3\<rparr>"

text \<open>
  Two users of the auth variant, and the same table once alice has changed her email to
  \<open>carol@mail.com\<close> at time 3.
\<close>

definition jane_table_updated :: na_db where
  "jane_table_updated =
     \<lparr>rows = rows seeded_table @
              [\<lparr>u_id = 3, u_username = ''jane'', u_email = ''jane@mail.org'',
                u_full_name = ''Jane R'', u_age = Some 1, u_bio = Some ''''\<rparr>],
      seq = 3\<rparr>"

definition bob_table :: auth_db where
  "bob_table =
     \<lparr>rows = [\<lparr>u_id = 1, u_username = ''alice'', u_email = ''alice@mail.com'',
                u_full_name = ''Alice A'', u_age = Some 30, u_bio = None,
                u_password = ''scrypt$salt$1terces'', u_created_at = 1, u_updated_at = 1\<rparr>,
              \<lparr>u_id = 2, u_username = ''bob'', u_email = ''bob@mail.com'',
                u_full_name = ''Bob B'', u_age = Some 44, u_bio = Some ''hi'',
                u_password = ''scrypt$salt$2terces'', u_created_at = 2, u_updated_at = 2\<rparr>],
      seq = 2\<rparr>"

definition bob_table_later :: auth_db where
  "bob_table_later =
     \<lparr>rows = [\<lparr>u_id = 1, u_username = ''alice'', u_email = ''carol@mail.com'',
                u_full_name = ''Alice A'', u_age = Some 30, u_bio = None,
                u_password = ''scrypt$salt$1terces'', u_created_at = 1, u_updated_at = 3\<rparr>,
              \<lparr>u_id = 2, u_username = ''bob'', u_email = ''bob@mail.com'',
                u_full_name = ''Bob B'', u_age = Some 44, u_bio = Some ''hi'',
                u_password = ''scrypt$salt$2terces'', u_created_at = 2, u_updated_at = 2\<rparr>],
      seq = 2\<rparr>"

definition alice_to_carol :: upd_form where
  "alice_to_carol = \<lparr>uf_email = Some ''carol@mail.com'', uf_full_name = Some ''Alice A'',
     uf_age = IntValue 30, uf_bio = None\<rparr>"

definition bob_to_carol :: upd_form where
  "bob_to_carol = \<lparr>uf_email = Some ''carol@mail.com'', uf_full_name = Some ''Bob B'',
     uf_age = IntValue 44, uf_bio = Some ''hi''\<rparr>"

definition asmith_as_jdoe :: profile_form where
  "asmith_as_jdoe = \<lparr>pf_username = Some ''jdoe'', pf_full_name = Some ''Alice Smith'',
     pf_email = Some ''asmith@mail.com'', pf_age = IntValue 28, pf_bio = Some ''x''\<rparr>"

definition bob_keeps_email :: upd_form where
  "bob_keeps_email = \<lparr>uf_email = Some ''bob@mail.com'', uf_full_name = Some ''Robert B'',
     uf_age = IntValue 45, uf_bio = Some ''''\<rparr>"

definition jane_keeps_email :: profile_form where
  "jane_keeps_email = \<lparr>pf_username = Some ''jane'', pf_full_name = Some ''Jane R'',
     pf_email = Some ''jane@mail.org'', pf_age = IntValue 1, pf_bio = None\<rparr>"

definition long_email :: string where
  "long_email = replicate 60 CHR ''a'' @ ''@'' @ replicate 56 CHR ''b'' @ ''.com''"

definition long_email_form :: reg_form where
  "long_email_form = \<lparr>rf_username = Some ''dora'', rf_email = Some long_email,
     rf_password = Some ''secret5'', rf_full_name = Some ''Dora D'', rf_age = IntValue 21,
     rf_bio = None\<rparr>"

definition padded :: reg_form where
  "padded = \<lparr>rf_username = Some '' eve '', rf_email = Some ''eve@mail.net'',
     rf_password = Some ''secret7'', rf_full_name = Some ''  Eve E '', rf_age = IntValue 33,
     rf_bio = Some ''  ''\<rparr>"

definition no_age :: reg_form where
  "no_age = \<lparr>rf_username = Some ''carl'', rf_email = Some ''carl@mail.net'',
     rf_password = Some ''secret9'', rf_full_name = Some ''Carl C'', rf_age = NoInput,
     rf_bio = None\<rparr>"

section \<open>The storage layer keeps the invariant\<close>

lemma fold_max_ge_init: "a \<le> fold max xs (a::nat)"
  by (induction xs arbitrary: a) (auto intro: order_trans [OF max.cobounded2])

lemma fold_max_ge_elem: "x \<in> set xs \<Longrightarrow> x \<le> fold max xs (a::nat)"
proof (induction xs arbitrary: a)
  case Nil
  then show ?case by simp
next
  case (Cons y ys)
  show ?case
  proof (cases "x = y")
    case True
    have "y \<le> max y a" by simp
    also have "\<dots> \<le> fold max ys (max y a)" by (rule fold_max_ge_init)
    finally show ?thesis using True by simp
  next
    case False
    with Cons show ?thesis by simp
  qed
qed

lemma next_id_fresh: "r \<in> set (rows db) \<Longrightarrow> u_id r < next_id db"
  unfolding next_id_def using fold_max_ge_elem [of "u_id r" "map u_id (rows db)" "seq db"]
  by (simp add: less_Suc_eq_le)

lemma no_violation_insert:
  "\<not> unique_violation_insert rs un em \<longleftrightarrow> un \<notin> u_username ` set rs \<and> em \<notin> u_email ` set rs"
  by (auto simp: unique_violation_insert_def list_ex_iff)

lemma auth_insert_ok:
  assumes "auth_insert db un em pw fn age bio now = Inr db'" and "table_ok db"
  shows "table_ok db'"
  using assms next_id_fresh [of _ db]
  by (auto simp: auth_insert_def table_ok_def no_violation_insert sorted_wrt_append
      split: option.splits if_splits)

lemma na_insert_ok:
  assumes "na_insert db un fn em age bio = Inr db'" and "table_ok db"
  shows "table_ok db'"
  using assms next_id_fresh [of _ db]
  by (auto simp: na_insert_def table_ok_def no_violation_insert sorted_wrt_append
      split: option.splits if_splits)

lemma distinct_map_update_one:
  assumes "distinct (map f rs)" and "\<And>r. r \<in> set rs \<Longrightarrow> u_id r \<noteq> i \<Longrightarrow> f r \<noteq> v"
    and "distinct (map u_id rs)" and "\<And>r. f (g r) = v"
  shows "distinct (map f (map (\<lambda>r. if u_id r = i then g r else r) rs))"
  using assms
proof (induction rs)
  case Nil
  then show ?case by simp
next
  case (Cons a rs)
  then show ?case 
    by (auto simp: image_iff)
qed


lemma map_proj_update_one:
  assumes "\<And>r. p (g r) = p r"
  shows "map p (map (\<lambda>r. if c r then g r else r) rs) = map p rs"
  by (induction rs) (auto simp: assms)

lemma sorted_ids_distinct: "sorted_wrt (<) (map u_id rs) \<Longrightarrow> distinct (map u_id rs)"
  using strict_sorted_iff [of "map u_id rs"] by (simp add: strict_sorted_iff)

lemma auth_update_ok:
  assumes "auth_update db i em fn age bio now = Inr db'" and "table_ok db"
  shows "table_ok db'"
proof (cases "find_by_id db i")
  case None
  with assms show ?thesis by (simp add: auth_update_def)
next
  case (Some old)
  from assms(1) Some obtain e n where en: "em = Some e" "fn = Some n"
    and free: "\<not> email_taken_by_other (rows db) i e"
    and db': "db' = db\<lparr>rows := map (\<lambda>r. if u_id r = i
                 then r\<lparr>u_email := e, u_full_name := n, u_age := age, u_bio := bio, u_updated_at := now\<rparr>
                 else r) (rows db)\<rparr>"
    by (auto simp: auth_update_def split: option.splits if_splits)
  let ?g = "\<lambda>r::auth_user. r\<lparr>u_email := e, u_full_name := n, u_age := age, u_bio := bio, u_updated_at := now\<rparr>"
  have "distinct (map u_email (map (\<lambda>r. if u_id r = i then ?g r else r) (rows db)))"
  proof (rule distinct_map_update_one [where v = e])
    show "distinct (map u_email (rows db))" using assms(2) by (simp add: table_ok_def)
    show "distinct (map u_id (rows db))" using assms(2) by (simp add: table_ok_def sorted_ids_distinct)
    show "\<And>r. r \<in> set (rows db) \<Longrightarrow> u_id r \<noteq> i \<Longrightarrow> u_email r \<noteq> e"
      using free by (auto simp: email_taken_by_other_def list_ex_iff)
    show "\<And>r. u_email (?g r) = e" by simp
  qed
  moreover have "map u_id (map (\<lambda>r. if u_id r = i then ?g r else r) (rows db)) = map u_id (rows db)"
    by (rule map_proj_update_one) simp
  moreover have "map u_username (map (\<lambda>r. if u_id r = i then ?g r else r) (rows db)) = map u_username (rows db)"
    by (rule map_proj_update_one) simp
  ultimately show ?thesis using assms(2) unfolding table_ok_def db' by (simp del: map_map)
qed

lemma na_update_ok:
  assumes "na_update db i un fn em age bio = Inr db'" and "table_ok db"
  shows "table_ok db'"
proof (cases "find_by_id db i")
  case None
  with assms show ?thesis by (simp add: na_update_def)
next
  case (Some old)
  from assms(1) Some have free: "\<not> unique_violation_update (rows db) i un em"
    and db': "db' = db\<lparr>rows := map (\<lambda>r. if u_id r = i
                 then r\<lparr>u_username := un, u_full_name := fn, u_email := em, u_age := age, u_bio := Some bio\<rparr>
                 else r) (rows db)\<rparr>"
    by (auto simp: na_update_def split: option.splits if_splits)
  let ?g = "\<lambda>r::user. r\<lparr>u_username := un, u_full_name := fn, u_email := em, u_age := age, u_bio := Some bio\<rparr>"
  have ids: "distinct (map u_id (rows db))"
    using assms(2) by (simp add: table_ok_def sorted_ids_distinct)
  have "distinct (map u_email (map (\<lambda>r. if u_id r = i then ?g r else r) (rows db)))"
  proof (rule distinct_map_update_one [where v = em])
    show "distinct (map u_email (rows db))" using assms(2) by (simp add: table_ok_def)
    show "\<And>r. r \<in> set (rows db) \<Longrightarrow> u_id r \<noteq> i \<Longrightarrow> u_email r \<noteq> em"
      using free by (auto simp: unique_violation_update_def list_ex_iff)
    show "\<And>r. u_email (?g r) = em" by simp
  qed (rule ids)
  moreover
  have "distinct (map u_username (map (\<lambda>r. if u_id r = i then ?g r else r) (rows db)))"
  proof (rule distinct_map_update_one [where v = un])
    show "distinct (map u_username (rows db))" using assms(2) by (simp add: table_ok_def)
    show "\<And>r. r \<in> set (rows db) \<Longrightarrow> u_id r \<noteq> i \<Longrightarrow> u_username r \<noteq> un"
      using free by (auto simp: unique_violation_update_def list_ex_iff)
    show "\<And>r. u_username (?g r) = un" by simp
  qed (rule ids)
  moreover have "map u_id (map (\<lambda>r. if u_id r = i then ?g r else r) (rows db)) = map u_id (rows db)"
    by (rule map_proj_update_one) simp
  ultimately show ?thesis using assms(2) unfolding table_ok_def db' by (simp del: map_map)
qed

lemma auth_handle_ok:
  assumes "table_ok db"
  shows "table_ok (fst (snd (auth_handle email_ok gph req db)))"
proof (cases req)
  case (Register stale sess m f salt now)
  then show ?thesis using assms
    by (auto simp: auth_handle_def register_def split: list.splits option.splits sum.splits
        py_exception.splits dest: auth_insert_ok)
next
  case (UpdateProfile stale sess m f now)
  then show ?thesis using assms
    by (auto simp: auth_handle_def update_profile_def split: list.splits option.splits sum.splits
        dest: auth_update_ok)
qed (auto simp: auth_handle_def index_def profile_def logout_def assms split: option.splits)

lemma na_handle_ok:
  assumes "table_ok db"
  shows "table_ok (snd (na_handle email_ok req db))"
proof (cases req)
  case (NaRegister m f)
  then show ?thesis using assms
    by (auto simp: na_handle_def na_register_def split: list.splits option.splits sum.splits
        py_exception.splits dest: na_insert_ok)
next
  case (NaUpdate i m f)
  then show ?thesis using assms
    by (auto simp: na_handle_def na_update_handler_def split: list.splits option.splits sum.splits
        py_exception.splits dest: na_update_ok)
qed (auto simp: na_handle_def na_index_def na_profile_def assms split: option.splits)

lemma auth_run_ok: "table_ok db \<Longrightarrow> table_ok (auth_run email_ok gph reqs db)"
  unfolding auth_run_def by (induction reqs arbitrary: db) (auto intro: auth_handle_ok)

lemma na_run_ok: "table_ok db \<Longrightarrow> table_ok (na_run email_ok reqs db)"
  unfolding na_run_def by (induction reqs arbitrary: db) (auto intro: na_handle_ok)

lemma empty_table_ok: "table_ok empty_table"
  by (simp add: table_ok_def empty_table_def)

lemma na_seed_ok: "table_ok db \<Longrightarrow> table_ok (na_seed db)"
  by (auto simp: na_seed_def split: sum.splits dest: na_insert_ok)

section \<open>Validation that passes\<close>

lemma run_validation_chain_nil:
  "run_validation_chain errs vs = [] \<longleftrightarrow> errs = [] \<and> list_all (\<lambda>v. v = Pass) vs"
  by (induction errs vs rule: run_validation_chain.induct) auto

lemma DataRequired_Pass: "DataRequired d = Pass \<longleftrightarrow> (\<exists>s. d = Some s \<and> s \<noteq> [] \<and> strip s \<noteq> [])"
  by (auto simp: DataRequired_def split: option.splits)

lemma RegistrationForm_validate_nil:
  "RegistrationForm_validate email_ok dbv f = [] \<longleftrightarrow>
     DataRequired (rf_username f) = Pass \<and> Length 3 (Some 20) (rf_username f) = Pass
     \<and> RegistrationForm_validate_username dbv (rf_username f) = Pass
     \<and> DataRequired (rf_email f) = Pass \<and> Email email_ok (rf_email f) = Pass
     \<and> RegistrationForm_validate_email dbv (rf_email f) = Pass
     \<and> DataRequired (rf_password f) = Pass \<and> Length 6 None (rf_password f) = Pass
     \<and> DataRequired (rf_full_name f) = Pass \<and> Length 2 (Some 100) (rf_full_name f) = Pass
     \<and> IntegerField_process_errors (rf_age f) = []
     \<and> NumberRange 1 150 (IntegerField_data (rf_age f)) = Pass
     \<and> Length 0 (Some 500) (rf_bio f) = Pass"
  by (simp add: RegistrationForm_validate_def run_validation_chain_nil)

lemma UpdateProfileForm_validate_nil:
  "UpdateProfileForm_validate email_ok dbv sess f = [] \<longleftrightarrow>
     DataRequired (uf_email f) = Pass \<and> Email email_ok (uf_email f) = Pass
     \<and> UpdateProfileForm_validate_email dbv sess (uf_email f) = Pass
     \<and> DataRequired (uf_full_name f) = Pass \<and> Length 2 (Some 100) (uf_full_name f) = Pass
     \<and> IntegerField_process_errors (uf_age f) = []
     \<and> NumberRange 1 150 (IntegerField_data (uf_age f)) = Pass
     \<and> Length 0 (Some 500) (uf_bio f) = Pass"
  by (simp add: UpdateProfileForm_validate_def run_validation_chain_nil)

lemma ProfileForm_validate_nil:
  "ProfileForm_validate email_ok f = [] \<longleftrightarrow>
     DataRequired (pf_username f) = Pass \<and> Length 3 (Some 30) (pf_username f) = Pass
     \<and> DataRequired (pf_full_name f) = Pass \<and> Length 2 (Some 100) (pf_full_name f) = Pass
     \<and> DataRequired (pf_email f) = Pass \<and> Email email_ok (pf_email f) = Pass
     \<and> Length 0 (Some 120) (pf_email f) = Pass
     \<and> IntegerField_process_errors (pf_age f) = []
     \<and> NumberRange 0 120 (IntegerField_data (pf_age f)) = Pass
     \<and> Length 0 (Some 500) (pf_bio f) = Pass"
  by (simp add: ProfileForm_validate_def run_validation_chain_nil)

lemma auth_insert_ids:
  "auth_insert db un em pw fn age bio now = Inr db' \<Longrightarrow> ids db' = ids db @ [next_id db]"
  by (auto simp: auth_insert_def ids_def split: option.splits if_splits)

lemma na_insert_ids:
  "na_insert db un fn em age bio = Inr db' \<Longrightarrow> ids db' = ids db @ [next_id db]"
  by (auto simp: na_insert_def ids_def split: option.splits if_splits)

lemma auth_update_ids:
  assumes "auth_update db i em fn age bio now = Inr db'"
  shows "ids db' = ids db"
proof (cases "find_by_id db i")
  case None
  with assms show ?thesis by (simp add: auth_update_def)
next
  case (Some old)
  with assms obtain g where "db' = db\<lparr>rows := map (\<lambda>r. if u_id r = i then g r else r) (rows db)\<rparr>"
    and "\<And>r. u_id (g r) = u_id r"
    by (auto simp: auth_update_def split: option.splits if_splits)
  then show ?thesis unfolding ids_def by (simp del: map_map add: map_proj_update_one)
qed


lemma na_update_ids:
  assumes "na_update db i un fn em age bio = Inr db'"
  shows "ids db' = ids db"
proof (cases "find_by_id db i")
  case None
  with assms show ?thesis by (simp add: na_update_def)
next
  case (Some old)
  with assms obtain g where "db' = db\<lparr>rows := map (\<lambda>r. if u_id r = i then g r else r) (rows db)\<rparr>"
    and "\<And>r. u_id (g r) = u_id r"
    by (auto simp: na_update_def split: option.splits if_splits)
  then show ?thesis unfolding ids_def by (simp del: map_map add: map_proj_update_one)
qed

lemma auth_handle_ids:
  "prefix (ids db) (ids (fst (snd (auth_handle email_ok gph req db))))"
proof (cases req)
  case (Register stale sess m f salt now)
  then show ?thesis
    by (auto simp: auth_handle_def register_def split: list.splits option.splits sum.splits
        py_exception.splits dest: auth_insert_ids)
next
  case (UpdateProfile stale sess m f now)
  then show ?thesis
    by (auto simp: auth_handle_def update_profile_def split: list.splits option.splits sum.splits
        dest: auth_update_ids)
qed (auto simp: auth_handle_def index_def profile_def logout_def split: option.splits)

lemma na_handle_ids:
  "prefix (ids db) (ids (snd (na_handle email_ok req db)))"
proof (cases req)
  case (NaRegister m f)
  then show ?thesis
    by (auto simp: na_handle_def na_register_def split: list.splits option.splits sum.splits
        py_exception.splits dest: na_insert_ids)
next
  case (NaUpdate i m f)
  then show ?thesis
    by (auto simp: na_handle_def na_update_handler_def split: list.splits option.splits sum.splits
        py_exception.splits dest: na_update_ids)
qed (auto simp: na_handle_def na_index_def na_profile_def split: option.splits)

lemma auth_run_ids: "prefix (ids db) (ids (auth_run email_ok gph reqs db))"
proof (induction reqs arbitrary: db)
  case Nil
  show ?case by (simp add: auth_run_def)
next
  case (Cons req reqs)
  have "prefix (ids db) (ids (fst (snd (auth_handle email_ok gph req db))))"
    by (rule auth_handle_ids)
  also have "prefix \<dots> (ids (auth_run email_ok gph reqs (fst (snd (auth_handle email_ok gph req db)))))"
    by (rule Cons.IH)
  finally show ?case by (simp add: auth_run_def)
qed

lemma na_run_ids: "prefix (ids db) (ids (na_run email_ok reqs db))"
proof (induction reqs arbitrary: db)
  case Nil
  show ?case by (simp add: na_run_def)
next
  case (Cons req reqs)
  have "prefix (ids db) (ids (snd (na_handle email_ok req db)))"
    by (rule na_handle_ids)
  also have "prefix \<dots> (ids (na_run email_ok reqs (snd (na_handle email_ok req db))))"
    by (rule Cons.IH)
  finally show ?case by (simp add: na_run_def)
qed

text \<open>The loser of a race: validated against any table, its insert meets a taken name.\<close>

lemma register_conflict:
  assumes "RegistrationForm_validate email_ok dbv f = []"
    and "list_ex (\<lambda>r. Some (u_username r) = rf_username f \<or> Some (u_email r) = rf_email f) (rows db)"
  shows "register email_ok gph salt now dbv db sess POST f = (Conflict, db, sess)"
proof -
  from assms(1) obtain un em pw fn where f: "rf_username f = Some un" "rf_email f = Some em"
    "rf_password f = Some pw" "rf_full_name f = Some fn"
    by (auto simp: RegistrationForm_validate_nil DataRequired_Pass)
  from assms(2) f have "unique_violation_insert (rows db) un em"
    by (auto simp: unique_violation_insert_def list_ex_iff)
  then show ?thesis using assms(1) f by (simp add: register_def auth_insert_def)
qed

lemma register_success:
  assumes "register email_ok gph salt now dbv db sess m f = (Registered, db', sess')"
  shows "\<exists>r. rows db' = rows db @ [r] \<and> Some (u_username r) = rf_username f
           \<and> Some (u_email r) = rf_email f \<and> u_id r = next_id db"
  using assms
  by (auto simp: register_def auth_insert_def split: if_splits list.splits option.splits
      sum.splits py_exception.splits)

lemma na_register_conflict:
  assumes "ProfileForm_validate email_ok f = []"
    and "list_ex (\<lambda>r. u_username r = strip (or_empty (pf_username f))
                      \<or> u_email r = strip (or_empty (pf_email f))) (rows db)"
  shows "na_register email_ok db POST f = (Conflict, db)"
  using assms by (simp add: na_register_def na_insert_def unique_violation_insert_def)

lemma na_register_success:
  assumes "na_register email_ok db m f = (Registered, db')"
  shows "\<exists>r. rows db' = rows db @ [r] \<and> u_username r = strip (or_empty (pf_username f))
           \<and> u_email r = strip (or_empty (pf_email f)) \<and> u_id r = next_id db"
  using assms
  by (auto simp: na_register_def na_insert_def split: if_splits list.splits option.splits
      sum.splits py_exception.splits)

section \<open>Uniqueness of usernames and emails, stability of ids\<close>

text \<open>
  Claim C1. In both variants, whatever requests are handled (also requests validated
  against an older table than the one their write meets), no two rows share a username or
  an email, ids grow strictly, and the ids the table held before are still there, in
  place, afterwards. Two registrations that both passed validation on the same table and
  ask for the same username or email: the first to write succeeds, the second gets
  \<open>IntegrityError\<close> from the table, which the handler reports as a conflict, and the
  table holds exactly one row of that username and of that email. The table itself
  refuses, with \<open>IntegrityError\<close>, every insert and every update that would give two
  rows the same username or email, whatever validation went before.
\<close>

theorem storage_uniqueness:
  fixes db db1 sdb :: auth_db and ndb ndb1 sndb :: na_db
  shows
  "(table_ok db \<longrightarrow> table_ok (auth_run email_ok gph reqs db))
   \<and> table_ok (auth_run email_ok gph reqs empty_table)
   \<and> prefix (ids db) (ids (auth_run email_ok gph reqs db))
   \<and> (table_ok ndb \<longrightarrow> table_ok (na_run email_ok nreqs ndb))
   \<and> table_ok (na_run email_ok nreqs (na_seed empty_table))
   \<and> prefix (ids ndb) (ids (na_run email_ok nreqs ndb))
   \<and> (register email_ok gph salt1 t1 db db s1 POST f1 = (Registered, db1, s1')
        \<and> RegistrationForm_validate email_ok db f2 = []
        \<and> (rf_username f2 = rf_username f1 \<or> rf_email f2 = rf_email f1)
      \<longrightarrow> register email_ok gph salt2 t2 db db1 s2 POST f2 = (Conflict, db1, s2)
          \<and> length (filter (\<lambda>r. Some (u_username r) = rf_username f1) (rows db1)) = 1
          \<and> length (filter (\<lambda>r. Some (u_email r) = rf_email f1) (rows db1)) = 1)
   \<and> (na_register email_ok ndb POST g1 = (Registered, ndb1)
        \<and> ProfileForm_validate email_ok g2 = []
        \<and> (strip (or_empty (pf_username g2)) = strip (or_empty (pf_username g1))
             \<or> strip (or_empty (pf_email g2)) = strip (or_empty (pf_email g1)))
      \<longrightarrow> na_register email_ok ndb1 POST g2 = (Conflict, ndb1)
          \<and> length (filter (\<lambda>r. u_username r = strip (or_empty (pf_username g1))) (rows ndb1)) = 1
          \<and> length (filter (\<lambda>r. u_email r = strip (or_empty (pf_email g1))) (rows ndb1)) = 1)
   \<and> (unique_violation_insert (rows sdb) un em
      \<longrightarrow> auth_insert sdb (Some un) (Some em) pw (Some fn) age bio now = Inl IntegrityError)
   \<and> (unique_violation_insert (rows sndb) nun nem
      \<longrightarrow> na_insert sndb nun nfn nem age nbio = Inl IntegrityError)
   \<and> (find_by_id sdb i = Some row \<and> email_taken_by_other (rows sdb) i em'
      \<longrightarrow> auth_update sdb i (Some em') (Some fn) age bio now = Inl IntegrityError)
   \<and> (find_by_id sndb j = Some nrow \<and> unique_violation_update (rows sndb) j nun' nem'
      \<longrightarrow> na_update sndb j nun' nfn nem' age nbio = Inl IntegrityError)"
proof -
  have storage:
    "unique_violation_insert (rows sdb) un em
      \<longrightarrow> auth_insert sdb (Some un) (Some em) pw (Some fn) age bio now = Inl IntegrityError"
    "unique_violation_insert (rows sndb) nun nem
      \<longrightarrow> na_insert sndb nun nfn nem age nbio = Inl IntegrityError"
    "find_by_id sdb i = Some row \<and> email_taken_by_other (rows sdb) i em'
      \<longrightarrow> auth_update sdb i (Some em') (Some fn) age bio now = Inl IntegrityError"
    "find_by_id sndb j = Some nrow \<and> unique_violation_update (rows sndb) j nun' nem'
      \<longrightarrow> na_update sndb j nun' nfn nem' age nbio = Inl IntegrityError"
    by (simp_all add: auth_insert_def na_insert_def auth_update_def na_update_def)
  have race_auth: "register email_ok gph salt2 t2 db db1 s2 POST f2 = (Conflict, db1, s2)
          \<and> length (filter (\<lambda>r. Some (u_username r) = rf_username f1) (rows db1)) = 1
          \<and> length (filter (\<lambda>r. Some (u_email r) = rf_email f1) (rows db1)) = 1"
    if won: "register email_ok gph salt1 t1 db db s1 POST f1 = (Registered, db1, s1')"
      and valid: "RegistrationForm_validate email_ok db f2 = []"
      and same: "rf_username f2 = rf_username f1 \<or> rf_email f2 = rf_email f1"
  proof -
    from register_success [OF won] obtain r where r: "rows db1 = rows db @ [r]"
      "Some (u_username r) = rf_username f1" "Some (u_email r) = rf_email f1"
      by blast
    from r same have "list_ex (\<lambda>r. Some (u_username r) = rf_username f2 \<or> Some (u_email r) = rf_email f2) (rows db1)"
      by (auto simp: list_ex_iff)
    from register_conflict [OF valid this]
    have lost: "register email_ok gph salt2 t2 db db1 s2 POST f2 = (Conflict, db1, s2)" .
    from won obtain un em where "rf_username f1 = Some un" "rf_email f1 = Some em"
      "\<not> unique_violation_insert (rows db) un em"
      by (auto simp: register_def auth_insert_def split: if_splits list.splits option.splits
          sum.splits py_exception.splits)
    then have "filter (\<lambda>r. Some (u_username r) = rf_username f1) (rows db) = []"
      "filter (\<lambda>r. Some (u_email r) = rf_email f1) (rows db) = []"
      by (auto simp: unique_violation_insert_def list_ex_iff filter_empty_conv)
    with r lost show ?thesis by simp
  qed
  have race_na: "na_register email_ok ndb1 POST g2 = (Conflict, ndb1)
          \<and> length (filter (\<lambda>r. u_username r = strip (or_empty (pf_username g1))) (rows ndb1)) = 1
          \<and> length (filter (\<lambda>r. u_email r = strip (or_empty (pf_email g1))) (rows ndb1)) = 1"
    if won: "na_register email_ok ndb POST g1 = (Registered, ndb1)"
      and valid: "ProfileForm_validate email_ok g2 = []"
      and same: "strip (or_empty (pf_username g2)) = strip (or_empty (pf_username g1))
             \<or> strip (or_empty (pf_email g2)) = strip (or_empty (pf_email g1))"
  proof -
    from na_register_success [OF won] obtain r where r: "rows ndb1 = rows ndb @ [r]"
      "u_username r = strip (or_empty (pf_username g1))" "u_email r = strip (or_empty (pf_email g1))"
      by blast
    from r same have "list_ex (\<lambda>r. u_username r = strip (or_empty (pf_username g2))
        \<or> u_email r = strip (or_empty (pf_email g2))) (rows ndb1)"
      by (auto simp: list_ex_iff)
    from na_register_conflict [OF valid this]
    have lost: "na_register email_ok ndb1 POST g2 = (Conflict, ndb1)" .
    from won have "\<not> unique_violation_insert (rows ndb) (strip (or_empty (pf_username g1)))
        (strip (or_empty (pf_email g1)))"
      by (auto simp: na_register_def na_insert_def split: if_splits list.splits option.splits
          sum.splits py_exception.splits)
    then have "filter (\<lambda>r. u_username r = strip (or_empty (pf_username g1))) (rows ndb) = []"
      "filter (\<lambda>r. u_email r = strip (or_empty (pf_email g1))) (rows ndb) = []"
      by (auto simp: unique_violation_insert_def list_ex_iff filter_empty_conv)
    with r lost show ?thesis by simp
  qed
  show ?thesis
    using storage race_auth race_na auth_run_ok [of db email_ok gph reqs]
      auth_run_ok [OF empty_table_ok, of email_ok gph reqs] auth_run_ids [of db email_ok gph reqs]
      na_run_ok [of ndb email_ok nreqs] na_run_ok [OF na_seed_ok [OF empty_table_ok], of email_ok nreqs]
      na_run_ids [of ndb email_ok nreqs]
    by blast
qed

theorem storage_uniqueness_witness:
  "table_ok (empty_table :: auth_db)
   \<and> table_ok (auth_run plain_email sample_hash
        [Register None None POST alice ''salt'' 1, Register (Some empty_table) None POST alice_again ''pepper'' 2]
        empty_table)
   \<and> prefix (ids (empty_table :: auth_db)) (ids (auth_run plain_email sample_hash
        [Register None None POST alice ''salt'' 1, Register (Some empty_table) None POST alice_again ''pepper'' 2]
        empty_table))
   \<and> table_ok (na_seed empty_table)
   \<and> table_ok (na_run plain_email [NaRegister POST jane, NaUpdate 1 POST jane_again]
        (na_seed empty_table))
   \<and> register plain_email sample_hash ''salt'' 1 empty_table empty_table None POST alice
       = (Registered, alice_table, Some (1, ''alice''))
   \<and> RegistrationForm_validate plain_email empty_table alice_again = []
   \<and> rf_username alice_again = rf_username alice
   \<and> register plain_email sample_hash ''pepper'' 2 empty_table alice_table None POST alice_again
       = (Conflict, alice_table, None)
   \<and> length (filter (\<lambda>r. Some (u_username r) = rf_username alice) (rows alice_table)) = 1
   \<and> na_register plain_email (na_seed empty_table) POST jane = (Registered, jane_table)
   \<and> ProfileForm_validate plain_email jane_again = []
   \<and> strip (or_empty (pf_email jane_again)) = strip (or_empty (pf_email jane))
   \<and> na_register plain_email jane_table POST jane_again = (Conflict, jane_table)
   \<and> length (filter (\<lambda>r. u_email r = strip (or_empty (pf_email jane))) (rows jane_table)) = 1
   \<and> unique_violation_insert (rows bob_table) ''alice'' ''new@mail.com''
   \<and> auth_insert bob_table (Some ''alice'') (Some ''new@mail.com'') ''hash'' (Some ''A A'')
        None None 7 = Inl IntegrityError
   \<and> unique_violation_insert (rows seeded_table) ''zed'' ''jdoe@example.com''
   \<and> na_insert seeded_table ''zed'' ''Zed Z'' ''jdoe@example.com'' None ''bio''
       = Inl IntegrityError
   \<and> find_by_id bob_table 2 = Some (rows bob_table ! 1)
   \<and> email_taken_by_other (rows bob_table) 2 ''alice@mail.com''
   \<and> auth_update bob_table 2 (Some ''alice@mail.com'') (Some ''A A'') None None 7
       = Inl IntegrityError
   \<and> find_by_id seeded_table 2 = Some (rows seeded_table ! 1)
   \<and> unique_violation_update (rows seeded_table) 2 ''asmith'' ''jdoe@example.com''
   \<and> na_update seeded_table 2 ''asmith'' ''Zed Z'' ''jdoe@example.com'' None ''bio''
       = Inl IntegrityError"
proof -
  have c1: "unique_violation_insert (rows bob_table) ''alice'' ''new@mail.com''" by code_simp
  have c2: "find_by_id seeded_table 2 = Some (rows seeded_table ! 1)" by code_simp
  have c3: "unique_violation_update (rows seeded_table) 2 ''asmith'' ''jdoe@example.com''"
    by code_simp
  have c4: "unique_violation_insert (rows seeded_table) ''zed'' ''jdoe@example.com''"
    by code_simp
  have c5: "find_by_id bob_table 2 = Some (rows bob_table ! 1)" by code_simp
  have c6: "email_taken_by_other (rows bob_table) 2 ''alice@mail.com''" by code_simp
  have a1: "table_ok (empty_table :: auth_db)" by (rule empty_table_ok)
  have a2: "table_ok (na_seed empty_table)" by code_simp
  have a3: "register plain_email sample_hash ''salt'' 1 empty_table empty_table None POST alice
       = (Registered, alice_table, Some (1, ''alice''))" by code_simp
  have a4: "RegistrationForm_validate plain_email empty_table alice_again = []" by code_simp
  have a5: "rf_username alice_again = rf_username alice" by code_simp
  have b3: "na_register plain_email (na_seed empty_table) POST jane = (Registered, jane_table)"
    by code_simp
  have b4: "ProfileForm_validate plain_email jane_again = []" by code_simp
  have b5: "strip (or_empty (pf_email jane_again)) = strip (or_empty (pf_email jane))"
    by code_simp
  show ?thesis
    using a1 a2 a3 a4 a5 b3 b4 b5 c1 c2 c3 c4 c5 c6
      storage_uniqueness [where db = empty_table and email_ok = plain_email and gph = sample_hash
        and reqs = "[Register None None POST alice ''salt'' 1,
                     Register (Some empty_table) None POST alice_again ''pepper'' 2]"
        and ndb = "na_seed empty_table" and nreqs = "[NaRegister POST jane, NaUpdate 1 POST jane_again]"
        and ?salt1.0 = "''salt''" and ?t1.0 = 1 and ?s1.0 = None and ?f1.0 = alice
        and ?db1.0 = alice_table and s1' = "Some (1, ''alice'')" and ?f2.0 = alice_again
        and ?salt2.0 = "''pepper''" and ?t2.0 = 2 and ?s2.0 = None and ?g1.0 = jane
        and ?ndb1.0 = jane_table and ?g2.0 = jane_again
        and sdb = bob_table and un = "''alice''" and em = "''new@mail.com''"
        and pw = "''hash''" and fn = "''A A''" and age = None and bio = None and now = 7
        and i = 2 and row = "rows bob_table ! 1" and em' = "''alice@mail.com''"
        and sndb = seeded_table and nun = "''zed''" and nem = "''jdoe@example.com''"
        and nfn = "''Zed Z''" and j = 2 and nun' = "''asmith''"
        and nem' = "''jdoe@example.com''" and nbio = "''bio''" and nrow = "rows seeded_table ! 1"]
    by simp
qed

section \<open>A uniqueness violation at write time\<close>

text \<open>
  Both handlers of the no-auth variant and \<open>register\<close> of the auth variant (lemma
  \<open>register_conflict\<close>) answer a uniqueness violation of the write with \<open>Conflict\<close>.
\<close>

lemma na_update_handler_conflict:
  assumes "find_by_id db uid = Some row"
    and "ProfileForm_validate email_ok f = []"
    and "unique_violation_update (rows db) uid (strip (or_empty (pf_username f)))
           (strip (or_empty (pf_email f)))"
  shows "na_update_handler email_ok db uid POST f = (Conflict, db)"
  using assms by (simp add: na_update_handler_def na_update_def)

text \<open>
  Claim C2 does not hold of \<open>update_profile\<close> in \<open>src/app.py\<close>: a form that passed
  validation (against the table \<open>dbv\<close> its validators read) and whose \<open>UPDATE\<close> meets
  a table in which another row holds the submitted email ends in an
  \<open>IntegrityError\<close> that nothing catches; the table and the session stay as they were.
\<close>

theorem update_profile_integrity_error_escapes:
  assumes "UpdateProfileForm_validate email_ok dbv (Some (uid, un)) f = []"
    and "find_by_id db uid = Some row"
    and "list_ex (\<lambda>r. u_id r \<noteq> uid \<and> Some (u_email r) = uf_email f) (rows db)"
  shows "update_profile email_ok now dbv db (Some (uid, un)) POST f
           = (Uncaught IntegrityError, db, Some (uid, un))"
proof -
  from assms(1) obtain em fn where f: "uf_email f = Some em" "uf_full_name f = Some fn"
    by (auto simp: UpdateProfileForm_validate_nil DataRequired_Pass)
  from assms(3) f have "email_taken_by_other (rows db) uid em"
    by (auto simp: email_taken_by_other_def list_ex_iff)
  with assms(2) f have "auth_update db uid (uf_email f) (uf_full_name f)
      (truthy_int (IntegerField_data (uf_age f))) (truthy_str (uf_bio f)) now = Inl IntegrityError"
    by (simp add: auth_update_def)
  with assms(1,2) show ?thesis by (simp add: update_profile_def)
qed

text \<open>
  Bob's form is validated while nobody holds \<open>carol@mail.com\<close>; alice's update commits;
  bob's \<open>UPDATE\<close> then raises.
\<close>

theorem update_profile_integrity_error_escapes_witness:
  "update_profile plain_email 3 bob_table bob_table (Some (1, ''alice'')) POST alice_to_carol
       = (Updated, bob_table_later, Some (1, ''alice''))
   \<and> UpdateProfileForm_validate plain_email bob_table (Some (2, ''bob'')) bob_to_carol = []
   \<and> find_by_id bob_table_later 2 = Some (rows bob_table_later ! 1)
   \<and> list_ex (\<lambda>r. u_id r \<noteq> 2 \<and> Some (u_email r) = uf_email bob_to_carol) (rows bob_table_later)
   \<and> update_profile plain_email 4 bob_table bob_table_later (Some (2, ''bob'')) POST bob_to_carol
       = (Uncaught IntegrityError, bob_table_later, Some (2, ''bob''))"
proof -
  have 0: "update_profile plain_email 3 bob_table bob_table (Some (1, ''alice'')) POST alice_to_carol
       = (Updated, bob_table_later, Some (1, ''alice''))"
    by code_simp
  have 1: "UpdateProfileForm_validate plain_email bob_table (Some (2, ''bob'')) bob_to_carol = []"
    by code_simp
  have 2: "find_by_id bob_table_later 2 = Some (rows bob_table_later ! 1)"
    by code_simp
  have 3: "list_ex (\<lambda>r. u_id r \<noteq> 2 \<and> Some (u_email r) = uf_email bob_to_carol) (rows bob_table_later)"
    by code_simp
  from 0 1 2 3 update_profile_integrity_error_escapes [OF 1 2 3, of 4] show ?thesis by simp
qed

section \<open>Where a validation message can come from\<close>

lemma chain_rules:
  "r \<in> set (run_validation_chain errs vs) \<Longrightarrow> r \<in> set errs \<or> Fail r \<in> set vs \<or> Stop r \<in> set vs"
  by (induction errs vs rule: run_validation_chain.induct) auto

lemma DataRequired_rule: "DataRequired d = Fail r \<longleftrightarrow> False" "DataRequired d = Stop r \<longleftrightarrow> r = Required \<and> DataRequired d \<noteq> Pass"
  by (auto simp: DataRequired_def split: option.splits)

lemma Length_rule: "Length lo hi d = Stop r \<longleftrightarrow> False" "Length lo hi d = Fail r \<longleftrightarrow> r = LengthRule \<and> Length lo hi d \<noteq> Pass"
  by (auto simp: Length_def Let_def)

lemma Email_rule: "Email email_ok d = Stop r \<longleftrightarrow> False" "Email email_ok d = Fail r \<longleftrightarrow> r = EmailSyntax \<and> Email email_ok d \<noteq> Pass"
  by (auto simp: Email_def split: option.splits)

lemma NumberRange_rule: "NumberRange lo hi d = Stop r \<longleftrightarrow> False" "NumberRange lo hi d = Fail r \<longleftrightarrow> r = NumberRangeRule \<and> NumberRange lo hi d \<noteq> Pass"
  by (auto simp: NumberRange_def split: option.splits)

lemma process_errors_rule: "r \<in> set (IntegerField_process_errors i) \<longleftrightarrow> r = NotInteger \<and> i = NotAnInteger"
  by (auto simp: IntegerField_process_errors_def split: int_input.splits)

lemma ProfileForm_never_taken: "AlreadyTaken \<notin> snd ` set (ProfileForm_validate email_ok f)"
  by (auto simp: ProfileForm_validate_def DataRequired_rule Length_rule Email_rule NumberRange_rule
      process_errors_rule eq_commute [of "Fail _"] eq_commute [of "Stop _"] dest!: chain_rules)

section \<open>The no-auth update finds a collision only at write time\<close>

text \<open>
  Claim C10. \<open>ProfileForm\<close> reads no table, and no form whatever makes it report a
  taken username or email. An update of an existing row whose form passes validation and
  whose trimmed username or email belongs to another row is refused by the table; the
  handler answers \<open>Conflict\<close> and the table is as before.
\<close>

theorem na_update_collision_found_at_write:
  assumes "find_by_id db uid = Some row"
    and "ProfileForm_validate email_ok f = []"
    and "list_ex (\<lambda>r. u_id r \<noteq> uid \<and> (u_username r = strip (or_empty (pf_username f))
                                     \<or> u_email r = strip (or_empty (pf_email f)))) (rows db)"
  shows "AlreadyTaken \<notin> snd ` set (ProfileForm_validate email_ok f')
         \<and> na_update_handler email_ok db uid POST f = (Conflict, db)"
proof
  show "AlreadyTaken \<notin> snd ` set (ProfileForm_validate email_ok f')"
    by (rule ProfileForm_never_taken)
  from assms(3) have "unique_violation_update (rows db) uid (strip (or_empty (pf_username f)))
           (strip (or_empty (pf_email f)))"
    by (simp add: unique_violation_update_def)
  with assms(1,2) show "na_update_handler email_ok db uid POST f = (Conflict, db)"
    by (rule na_update_handler_conflict)
qed

theorem na_update_collision_found_at_write_witness:
  "find_by_id seeded_table 2 = Some (rows seeded_table ! 1)
   \<and> ProfileForm_validate plain_email asmith_as_jdoe = []
   \<and> list_ex (\<lambda>r. u_id r \<noteq> 2 \<and> (u_username r = strip (or_empty (pf_username asmith_as_jdoe))
                                   \<or> u_email r = strip (or_empty (pf_email asmith_as_jdoe))))
        (rows seeded_table)
   \<and> AlreadyTaken \<notin> snd ` set (ProfileForm_validate plain_email jane)
   \<and> na_update_handler plain_email seeded_table 2 POST asmith_as_jdoe = (Conflict, seeded_table)"
proof -
  have 1: "find_by_id seeded_table 2 = Some (rows seeded_table ! 1)" by code_simp
  have 2: "ProfileForm_validate plain_email asmith_as_jdoe = []" by code_simp
  have 3: "list_ex (\<lambda>r. u_id r \<noteq> 2 \<and> (u_username r = strip (or_empty (pf_username asmith_as_jdoe))
                                   \<or> u_email r = strip (or_empty (pf_email asmith_as_jdoe))))
        (rows seeded_table)" by code_simp
  from 1 2 3 na_update_collision_found_at_write [OF 1 2 3, of jane] show ?thesis by simp
qed

section \<open>Keeping one's own email\<close>

lemma find_by_id_SomeD: "find_by_id db i = Some r \<Longrightarrow> r \<in> set (rows db) \<and> u_id r = i"
  by (auto simp: find_by_id_def find_Some_iff in_set_conv_nth)

lemma own_email_not_taken:
  assumes "table_ok db" and "find_by_id db i = Some row"
  shows "\<not> email_taken_by_other (rows db) i (u_email row)"
proof
  assume "email_taken_by_other (rows db) i (u_email row)"
  then obtain r where r: "r \<in> set (rows db)" "u_id r \<noteq> i" "u_email r = u_email row"
    by (auto simp: email_taken_by_other_def list_ex_iff)
  from assms(2) have row: "row \<in> set (rows db)" "u_id row = i"
    by (auto dest: find_by_id_SomeD)
  from assms(1) have "inj_on u_email (set (rows db))"
    by (simp add: table_ok_def distinct_map)
  with r row have "r = row" by (auto dest: inj_onD)
  with r row show False by simp
qed

lemma find_excluding_None:
  "find_by_email_excluding_id db em i = None \<longleftrightarrow> \<not> email_taken_by_other (rows db) i em"
  by (auto simp: find_by_email_excluding_id_def email_taken_by_other_def find_None_iff list_ex_iff)

lemma UpdateProfileForm_taken_by_inline:
  assumes "(FEmail, AlreadyTaken) \<in> set (UpdateProfileForm_validate email_ok dbv sess f)"
  shows "UpdateProfileForm_validate_email dbv sess (uf_email f) = Fail AlreadyTaken"
proof -
  let ?vs = "[DataRequired (uf_email f), Email email_ok (uf_email f),
              UpdateProfileForm_validate_email dbv sess (uf_email f)]"
  from assms have "AlreadyTaken \<in> set (run_validation_chain [] ?vs)"
    by (auto simp: UpdateProfileForm_validate_def)
  then have "Fail AlreadyTaken \<in> set ?vs \<or> Stop AlreadyTaken \<in> set ?vs"
    by (auto dest: chain_rules)
  moreover have "DataRequired (uf_email f) \<noteq> Fail AlreadyTaken"
    "DataRequired (uf_email f) \<noteq> Stop AlreadyTaken"
    by (simp_all add: DataRequired_def split: option.splits)
  moreover have "Email email_ok (uf_email f) \<noteq> Fail AlreadyTaken"
    "Email email_ok (uf_email f) \<noteq> Stop AlreadyTaken"
    by (simp_all add: Email_def split: option.splits)
  moreover have "UpdateProfileForm_validate_email dbv sess (uf_email f) \<noteq> Stop AlreadyTaken"
    by (simp add: UpdateProfileForm_validate_email_def split: option.splits prod.splits)
  ultimately show ?thesis by (simp add: eq_commute [of "Fail AlreadyTaken"] eq_commute [of "Stop AlreadyTaken"])
qed

text \<open>
  Claim C5. Auth variant: for a logged-in user whose row exists, a form that carries the
  row's own email gets no taken-email message, and if the form passes validation the
  update succeeds. No-auth variant: the form has no collision search; the table's check
  leaves the updated row itself out, so a form whose (trimmed) email is the row's own
  meets no email collision, and the update succeeds unless the new username belongs to
  another row.
\<close>

theorem own_email_is_no_collision:
  fixes db :: auth_db and ndb :: na_db
  assumes "table_ok db" and "find_by_id db uid = Some row" and "uf_email f = Some (u_email row)"
    and "table_ok ndb" and "find_by_id ndb nid = Some nrow"
    and "strip (or_empty (pf_email g)) = u_email nrow"
  shows "(FEmail, AlreadyTaken) \<notin> set (UpdateProfileForm_validate email_ok db (Some (uid, un)) f)
     \<and> (UpdateProfileForm_validate email_ok db (Some (uid, un)) f = []
          \<longrightarrow> fst (update_profile email_ok now db db (Some (uid, un)) POST f) = Updated)
     \<and> \<not> email_taken_by_other (rows ndb) nid (strip (or_empty (pf_email g)))
     \<and> (ProfileForm_validate email_ok g = []
          \<and> \<not> list_ex (\<lambda>r. u_id r \<noteq> nid \<and> u_username r = strip (or_empty (pf_username g))) (rows ndb)
          \<longrightarrow> fst (na_update_handler email_ok ndb nid POST g) = Updated)"
proof (intro conjI impI)
  have free: "\<not> email_taken_by_other (rows db) uid (u_email row)"
    using assms(1,2) by (rule own_email_not_taken)
  then have pass: "UpdateProfileForm_validate_email db (Some (uid, un)) (uf_email f) = Pass"
    using assms(3) find_excluding_None [of db "u_email row" uid]
    by (simp add: UpdateProfileForm_validate_email_def)
  show "(FEmail, AlreadyTaken) \<notin> set (UpdateProfileForm_validate email_ok db (Some (uid, un)) f)"
    using pass by (auto dest: UpdateProfileForm_taken_by_inline)
  show "fst (update_profile email_ok now db db (Some (uid, un)) POST f) = Updated"
    if "UpdateProfileForm_validate email_ok db (Some (uid, un)) f = []"
  proof -
    from that obtain fn where "uf_full_name f = Some fn"
      by (auto simp: UpdateProfileForm_validate_nil DataRequired_Pass)
    with that free assms(2,3) show ?thesis
      by (simp add: update_profile_def auth_update_def)
  qed
  show nfree: "\<not> email_taken_by_other (rows ndb) nid (strip (or_empty (pf_email g)))"
    using own_email_not_taken [OF assms(4,5)] assms(6) by simp
  show "fst (na_update_handler email_ok ndb nid POST g) = Updated"
    if "ProfileForm_validate email_ok g = []
          \<and> \<not> list_ex (\<lambda>r. u_id r \<noteq> nid \<and> u_username r = strip (or_empty (pf_username g))) (rows ndb)"
  proof -
    from that nfree have "\<not> unique_violation_update (rows ndb) nid
        (strip (or_empty (pf_username g))) (strip (or_empty (pf_email g)))"
      by (auto simp: unique_violation_update_def email_taken_by_other_def list_ex_iff)
    with that assms(5) show ?thesis
      by (simp add: na_update_handler_def na_update_def)
  qed
qed

theorem own_email_is_no_collision_witness:
  "table_ok bob_table
   \<and> find_by_id bob_table 2 = Some (rows bob_table ! 1)
   \<and> uf_email bob_keeps_email = Some (u_email (rows bob_table ! 1))
   \<and> table_ok jane_table
   \<and> find_by_id jane_table 3 = Some (rows jane_table ! 2)
   \<and> pf_email jane_keeps_email = Some (u_email (rows jane_table ! 2))
   \<and> strip (or_empty (pf_email jane_keeps_email)) = u_email (rows jane_table ! 2)
   \<and> UpdateProfileForm_validate plain_email bob_table (Some (2, ''bob'')) bob_keeps_email = []
   \<and> fst (update_profile plain_email 9 bob_table bob_table (Some (2, ''bob'')) POST bob_keeps_email)
       = Updated
   \<and> ProfileForm_validate plain_email jane_keeps_email = []
   \<and> \<not> email_taken_by_other (rows jane_table) 3 (strip (or_empty (pf_email jane_keeps_email)))
   \<and> fst (na_update_handler plain_email jane_table 3 POST jane_keeps_email) = Updated"
proof -
  have 1: "table_ok bob_table" by code_simp
  have 2: "find_by_id bob_table 2 = Some (rows bob_table ! 1)" by code_simp
  have 3: "uf_email bob_keeps_email = Some (u_email (rows bob_table ! 1))" by code_simp
  have 4: "table_ok jane_table" by code_simp
  have 5: "find_by_id jane_table 3 = Some (rows jane_table ! 2)" by code_simp
  have 6: "strip (or_empty (pf_email jane_keeps_email)) = u_email (rows jane_table ! 2)"
    by code_simp
  have 7: "pf_email jane_keeps_email = Some (u_email (rows jane_table ! 2))" by code_simp
  have 8: "UpdateProfileForm_validate plain_email bob_table (Some (2, ''bob'')) bob_keeps_email = []"
    by code_simp
  have 9: "ProfileForm_validate plain_email jane_keeps_email = []" by code_simp
  have 10: "\<not> list_ex (\<lambda>r. u_id r \<noteq> 3 \<and> u_username r = strip (or_empty (pf_username jane_keeps_email)))
              (rows jane_table)" by code_simp
  from 1 2 3 4 5 6 7 8 9 10
    own_email_is_no_collision [where email_ok = plain_email and un = "''bob''" and now = 9,
      OF 1 2 3 4 5 6]
  show ?thesis by simp
qed

section \<open>The age rule\<close>

lemma field_errors_append [simp]:
  "field_errors fld (xs @ ys) = field_errors fld xs @ field_errors fld ys"
  by (simp add: field_errors_def)

lemma field_errors_Pair [simp]:
  "field_errors fld (map (Pair fld') rs) = (if fld' = fld then rs else [])"
  by (induction rs) (auto simp: field_errors_def)

lemma age_errors_auth_register:
  "field_errors FAge (RegistrationForm_validate email_ok dbv f)
     = run_validation_chain (IntegerField_process_errors (rf_age f))
         [NumberRange 1 150 (IntegerField_data (rf_age f))]"
  by (simp add: RegistrationForm_validate_def)

lemma age_errors_auth_update:
  "field_errors FAge (UpdateProfileForm_validate email_ok dbv sess u)
     = run_validation_chain (IntegerField_process_errors (uf_age u))
         [NumberRange 1 150 (IntegerField_data (uf_age u))]"
  by (simp add: UpdateProfileForm_validate_def)

lemma age_errors_na:
  "field_errors FAge (ProfileForm_validate email_ok g)
     = run_validation_chain (IntegerField_process_errors (pf_age g))
         [NumberRange 0 120 (IntegerField_data (pf_age g))]"
  by (simp add: ProfileForm_validate_def)

lemma age_chain:
  "run_validation_chain (IntegerField_process_errors i) [NumberRange lo hi (IntegerField_data i)]
     = (case i of
          NoInput \<Rightarrow> [NumberRangeRule]
        | NotAnInteger \<Rightarrow> [NotInteger, NumberRangeRule]
        | IntValue n \<Rightarrow> if lo \<le> n \<and> n \<le> hi then [] else [NumberRangeRule])"
  by (simp add: IntegerField_process_errors_def IntegerField_data_def NumberRange_def
      split: int_input.splits)

lemma field_errors_nil: "errs = [] \<Longrightarrow> field_errors fld errs = []"
  by (simp add: field_errors_def)

text \<open>
  Claim C4 holds for an age that is present: it passes between 1 and 150 in the auth
  variant and between 0 and 120 in the no-auth variant, so 0 passes only in the latter
  and 151 in neither. It does not hold for an age that is left out: \<open>NumberRange\<close>
  refuses missing data and no \<open>Optional\<close> validator precedes it, so a form without an
  age fails validation in both variants, although the handlers and the nullable column
  provide for a missing age.
\<close>

theorem age_is_required_in_effect:
  "field_errors FAge (RegistrationForm_validate email_ok dbv f)
     = (case rf_age f of
          NoInput \<Rightarrow> [NumberRangeRule]
        | NotAnInteger \<Rightarrow> [NotInteger, NumberRangeRule]
        | IntValue n \<Rightarrow> if 1 \<le> n \<and> n \<le> 150 then [] else [NumberRangeRule])
   \<and> field_errors FAge (UpdateProfileForm_validate email_ok dbv sess u)
     = (case uf_age u of
          NoInput \<Rightarrow> [NumberRangeRule]
        | NotAnInteger \<Rightarrow> [NotInteger, NumberRangeRule]
        | IntValue n \<Rightarrow> if 1 \<le> n \<and> n \<le> 150 then [] else [NumberRangeRule])
   \<and> field_errors FAge (ProfileForm_validate email_ok g)
     = (case pf_age g of
          NoInput \<Rightarrow> [NumberRangeRule]
        | NotAnInteger \<Rightarrow> [NotInteger, NumberRangeRule]
        | IntValue n \<Rightarrow> if 0 \<le> n \<and> n \<le> 120 then [] else [NumberRangeRule])
   \<and> RegistrationForm_validate email_ok dbv (f\<lparr>rf_age := NoInput\<rparr>) \<noteq> []
   \<and> UpdateProfileForm_validate email_ok dbv sess (u\<lparr>uf_age := NoInput\<rparr>) \<noteq> []
   \<and> ProfileForm_validate email_ok (g\<lparr>pf_age := NoInput\<rparr>) \<noteq> []"
proof -
  have "field_errors FAge (RegistrationForm_validate email_ok dbv (f\<lparr>rf_age := NoInput\<rparr>)) \<noteq> []"
    by (simp add: age_errors_auth_register age_chain)
  then have 1: "RegistrationForm_validate email_ok dbv (f\<lparr>rf_age := NoInput\<rparr>) \<noteq> []"
    by (auto dest: field_errors_nil)
  have "field_errors FAge (UpdateProfileForm_validate email_ok dbv sess (u\<lparr>uf_age := NoInput\<rparr>)) \<noteq> []"
    by (simp add: age_errors_auth_update age_chain)
  then have 2: "UpdateProfileForm_validate email_ok dbv sess (u\<lparr>uf_age := NoInput\<rparr>) \<noteq> []"
    by (auto dest: field_errors_nil)
  have "field_errors FAge (ProfileForm_validate email_ok (g\<lparr>pf_age := NoInput\<rparr>)) \<noteq> []"
    by (simp add: age_errors_na age_chain)
  then have 3: "ProfileForm_validate email_ok (g\<lparr>pf_age := NoInput\<rparr>) \<noteq> []"
    by (auto dest: field_errors_nil)
  show ?thesis
    using 1 2 3 by (simp add: age_errors_auth_register age_errors_auth_update age_errors_na age_chain)
qed

theorem age_is_required_in_effect_witness:
  "field_errors FAge (RegistrationForm_validate plain_email empty_table no_age) = [NumberRangeRule]
   \<and> register plain_email sample_hash ''salt'' 1 empty_table empty_table None POST no_age
       = (FormErrors [(FAge, NumberRangeRule)], empty_table, None)
   \<and> field_errors FAge (ProfileForm_validate plain_email (jane\<lparr>pf_age := NotAnInteger\<rparr>))
       = [NotInteger, NumberRangeRule]
   \<and> na_register plain_email seeded_table POST (jane\<lparr>pf_age := NotAnInteger\<rparr>)
       = (FormErrors [(FAge, NotInteger), (FAge, NumberRangeRule)], seeded_table)
   \<and> field_errors FAge (ProfileForm_validate plain_email jane) = []
   \<and> field_errors FAge (RegistrationForm_validate plain_email empty_table
        (alice\<lparr>rf_age := IntValue 0\<rparr>)) = [NumberRangeRule]
   \<and> field_errors FAge (ProfileForm_validate plain_email (jane\<lparr>pf_age := IntValue 151\<rparr>))
       = [NumberRangeRule]
   \<and> field_errors FAge (RegistrationForm_validate plain_email empty_table
        (alice\<lparr>rf_age := IntValue 151\<rparr>)) = [NumberRangeRule]"
proof -
  have 1: "register plain_email sample_hash ''salt'' 1 empty_table empty_table None POST no_age
       = (FormErrors [(FAge, NumberRangeRule)], empty_table, None)"
    by code_simp
  have 2: "na_register plain_email seeded_table POST (jane\<lparr>pf_age := NotAnInteger\<rparr>)
       = (FormErrors [(FAge, NotInteger), (FAge, NumberRangeRule)], seeded_table)"
    by code_simp
  have 3: "rf_age no_age = NoInput" "pf_age (jane\<lparr>pf_age := NotAnInteger\<rparr>) = NotAnInteger"
    "pf_age jane = IntValue 0" "rf_age (alice\<lparr>rf_age := IntValue 0\<rparr>) = IntValue 0"
    "pf_age (jane\<lparr>pf_age := IntValue 151\<rparr>) = IntValue 151"
    "rf_age (alice\<lparr>rf_age := IntValue 151\<rparr>) = IntValue 151"
    by (simp_all add: no_age_def jane_def)
  from 1 2 3
    age_is_required_in_effect [where email_ok = plain_email and dbv = empty_table and f = no_age
      and g = "jane\<lparr>pf_age := NotAnInteger\<rparr>"]
    age_is_required_in_effect [where email_ok = plain_email and dbv = empty_table
      and f = "alice\<lparr>rf_age := IntValue 0\<rparr>" and g = jane]
    age_is_required_in_effect [where email_ok = plain_email and dbv = empty_table
      and f = "alice\<lparr>rf_age := IntValue 151\<rparr>" and g = "jane\<lparr>pf_age := IntValue 151\<rparr>"]
  show ?thesis by simp
qed

section \<open>The email rules\<close>

lemma strip_Nil [simp]: "strip [] = []"
  by (simp add: strip_def)

lemma Length_Pass: "Length lo hi d = Pass \<longleftrightarrow>
  lo \<le> (case d of None \<Rightarrow> 0 | Some s \<Rightarrow> length s)
  \<and> (case hi of None \<Rightarrow> True | Some h \<Rightarrow> (case d of None \<Rightarrow> 0 | Some s \<Rightarrow> length s) \<le> h)"
  by (simp add: Length_def Let_def)

lemma Email_Pass: "Email email_ok d = Pass \<longleftrightarrow> (\<exists>s. d = Some s \<and> email_ok s)"
  by (auto simp: Email_def split: option.splits)

lemma NumberRange_Pass: "NumberRange lo hi d = Pass \<longleftrightarrow> (\<exists>n. d = Some n \<and> lo \<le> n \<and> n \<le> hi)"
  by (auto simp: NumberRange_def split: option.splits)

lemma email_errors_auth_register:
  "field_errors FEmail (RegistrationForm_validate email_ok dbv f)
     = run_validation_chain []
         [DataRequired (rf_email f), Email email_ok (rf_email f),
          RegistrationForm_validate_email dbv (rf_email f)]"
  by (simp add: RegistrationForm_validate_def)

lemma email_errors_auth_update:
  "field_errors FEmail (UpdateProfileForm_validate email_ok dbv sess u)
     = run_validation_chain []
         [DataRequired (uf_email u), Email email_ok (uf_email u),
          UpdateProfileForm_validate_email dbv sess (uf_email u)]"
  by (simp add: UpdateProfileForm_validate_def)

text \<open>
  Claim C6, as the code has it. In both variants a form that passes validation carries an
  email that is present, not blank and accepted by the address check. Only the no-auth
  variant bounds its length: there a form that passes has an email of at most 120
  characters, and an email of more than 120 characters is rejected. The forms of the auth
  variant have no length rule for the email: an address that the check accepts and
  nobody (else) holds gets no message, whatever its length.
\<close>

theorem email_rules_of_each_variant:
  "(RegistrationForm_validate email_ok dbv f = []
      \<longrightarrow> (\<exists>e. rf_email f = Some e \<and> strip e \<noteq> [] \<and> email_ok e))
   \<and> (UpdateProfileForm_validate email_ok dbv sess u = []
      \<longrightarrow> (\<exists>e. uf_email u = Some e \<and> strip e \<noteq> [] \<and> email_ok e))
   \<and> (ProfileForm_validate email_ok g = []
      \<longrightarrow> (\<exists>e. pf_email g = Some e \<and> strip e \<noteq> [] \<and> email_ok e \<and> length e \<le> 120))
   \<and> (pf_email g = Some e \<and> 120 < length e \<longrightarrow> ProfileForm_validate email_ok g \<noteq> [])
   \<and> (email_ok e \<and> strip e \<noteq> [] \<and> find_by_email dbv e = None
      \<longrightarrow> field_errors FEmail (RegistrationForm_validate email_ok dbv (f\<lparr>rf_email := Some e\<rparr>)) = [])
   \<and> (email_ok e \<and> strip e \<noteq> [] \<and> find_by_email_excluding_id dbv e uid = None
      \<longrightarrow> field_errors FEmail
            (UpdateProfileForm_validate email_ok dbv (Some (uid, un)) (u\<lparr>uf_email := Some e\<rparr>)) = [])"
proof (intro conjI impI)
  assume "RegistrationForm_validate email_ok dbv f = []"
  then show "\<exists>e. rf_email f = Some e \<and> strip e \<noteq> [] \<and> email_ok e"
    by (auto simp: RegistrationForm_validate_nil DataRequired_Pass Email_Pass)
next
  assume "UpdateProfileForm_validate email_ok dbv sess u = []"
  then show "\<exists>e. uf_email u = Some e \<and> strip e \<noteq> [] \<and> email_ok e"
    by (auto simp: UpdateProfileForm_validate_nil DataRequired_Pass Email_Pass)
next
  assume "ProfileForm_validate email_ok g = []"
  then show "\<exists>e. pf_email g = Some e \<and> strip e \<noteq> [] \<and> email_ok e \<and> length e \<le> 120"
    by (auto simp: ProfileForm_validate_nil DataRequired_Pass Email_Pass Length_Pass)
next
  assume "pf_email g = Some e \<and> 120 < length e"
  then show "ProfileForm_validate email_ok g \<noteq> []"
    by (auto simp: ProfileForm_validate_nil Length_Pass)
next
  assume "email_ok e \<and> strip e \<noteq> [] \<and> find_by_email dbv e = None"
  then show "field_errors FEmail (RegistrationForm_validate email_ok dbv (f\<lparr>rf_email := Some e\<rparr>)) = []"
    by (auto simp: email_errors_auth_register DataRequired_def Email_def
        RegistrationForm_validate_email_def)
next
  assume "email_ok e \<and> strip e \<noteq> [] \<and> find_by_email_excluding_id dbv e uid = None"
  then show "field_errors FEmail
            (UpdateProfileForm_validate email_ok dbv (Some (uid, un)) (u\<lparr>uf_email := Some e\<rparr>)) = []"
    by (auto simp: email_errors_auth_update DataRequired_def Email_def
        UpdateProfileForm_validate_email_def)
qed

theorem email_rules_of_each_variant_witness:
  "RegistrationForm_validate plain_email empty_table alice = []
   \<and> (\<exists>e. rf_email alice = Some e \<and> strip e \<noteq> [] \<and> plain_email e)
   \<and> UpdateProfileForm_validate plain_email bob_table (Some (2, ''bob'')) bob_keeps_email = []
   \<and> (\<exists>e. uf_email bob_keeps_email = Some e \<and> strip e \<noteq> [] \<and> plain_email e)
   \<and> ProfileForm_validate plain_email jane = []
   \<and> (\<exists>e. pf_email jane = Some e \<and> strip e \<noteq> [] \<and> plain_email e \<and> length e \<le> 120)
   \<and> pf_email (jane\<lparr>pf_email := Some long_email\<rparr>) = Some long_email
   \<and> 120 < length long_email
   \<and> ProfileForm_validate plain_email (jane\<lparr>pf_email := Some long_email\<rparr>) \<noteq> []
   \<and> plain_email long_email \<and> strip long_email \<noteq> []
   \<and> find_by_email (empty_table :: auth_db) long_email = None
   \<and> field_errors FEmail (RegistrationForm_validate plain_email empty_table
        (alice\<lparr>rf_email := Some long_email\<rparr>)) = []
   \<and> find_by_email_excluding_id bob_table long_email 2 = None
   \<and> field_errors FEmail (UpdateProfileForm_validate plain_email bob_table (Some (2, ''bob''))
        (bob_keeps_email\<lparr>uf_email := Some long_email\<rparr>)) = []"
proof -
  have 1: "RegistrationForm_validate plain_email empty_table alice = []" by code_simp
  have 2: "UpdateProfileForm_validate plain_email bob_table (Some (2, ''bob'')) bob_keeps_email = []"
    by code_simp
  have 3: "ProfileForm_validate plain_email jane = []" by code_simp
  have 4: "pf_email (jane\<lparr>pf_email := Some long_email\<rparr>) = Some long_email" by simp
  have 5: "120 < length long_email" by code_simp
  have 6: "plain_email long_email" by code_simp
  have 7: "strip long_email \<noteq> []" by code_simp
  have 8: "find_by_email (empty_table :: auth_db) long_email = None" by code_simp
  have 9: "find_by_email_excluding_id bob_table long_email 2 = None" by code_simp
  from 1 2 3 4 5 6 7 8 9
    email_rules_of_each_variant [where email_ok = plain_email and dbv = empty_table and f = alice
      and g = jane and e = long_email]
    email_rules_of_each_variant [where email_ok = plain_email and dbv = bob_table
      and sess = "Some (2, ''bob'')" and u = bob_keeps_email
      and g = "jane\<lparr>pf_email := Some long_email\<rparr>" and e = long_email and uid = 2
      and un = "''bob''"]
  show ?thesis by simp
qed

text \<open>
  Claim C6 as stated fails in the auth variant: an address of 121 characters passes the
  validation of \<open>RegistrationForm\<close> and of \<open>UpdateProfileForm\<close>, and is registered.
\<close>

theorem long_email_accepted_by_auth_variant:
  "length long_email = 121
   \<and> rf_email long_email_form = Some long_email
   \<and> RegistrationForm_validate plain_email empty_table long_email_form = []
   \<and> fst (register plain_email sample_hash ''salt'' 1 empty_table empty_table None POST long_email_form)
       = Registered
   \<and> UpdateProfileForm_validate plain_email bob_table (Some (2, ''bob''))
       (bob_keeps_email\<lparr>uf_email := Some long_email\<rparr>) = []"
  by code_simp

section \<open>What the handlers store\<close>

lemma last_dropWhile: "dropWhile P xs \<noteq> [] \<Longrightarrow> last (dropWhile P xs) = last xs"
  by (induction xs) (auto split: if_splits)

lemma strip_trimmed: "trimmed (strip s)"
proof (cases "strip s = []")
  case True
  then show ?thesis by (simp add: trimmed_def)
next
  case False
  let ?t = "dropWhile py_isspace s"
  let ?u = "dropWhile py_isspace (rev ?t)"
  from False have u: "?u \<noteq> []" by (simp add: strip_def)
  have t: "?t \<noteq> []"
  proof
    assume e: "?t = []"
    have "?u = []" unfolding e by simp
    with u show False by contradiction
  qed
  have "last (strip s) = hd ?u" using u by (simp add: strip_def last_rev)
  moreover have "\<not> py_isspace (hd ?u)" using u by (rule hd_dropWhile)
  moreover have "hd (strip s) = last ?u" using u by (simp add: strip_def hd_rev)
  moreover have "last ?u = last (rev ?t)" using u by (rule last_dropWhile)
  moreover have "last (rev ?t) = hd ?t" using t by (simp add: last_rev)
  moreover have "\<not> py_isspace (hd ?t)" using t by (rule hd_dropWhile)
  ultimately show ?thesis by (simp add: trimmed_def)
qed

lemma auth_register_row:
  assumes "register email_ok gph salt now dbv db sess m f = (Registered, db', sess')"
  shows "\<exists>un em pw fn n. rf_username f = Some un \<and> rf_email f = Some em \<and> rf_password f = Some pw
           \<and> rf_full_name f = Some fn \<and> rf_age f = IntValue n
           \<and> RegistrationForm_validate email_ok dbv f = [] \<and> m = POST
           \<and> db' = db\<lparr>rows := rows db @
                      [\<lparr>u_id = next_id db, u_username = un, u_email = em, u_full_name = fn,
                        u_age = truthy_int (Some n), u_bio = truthy_str (rf_bio f),
                        u_password = gph salt pw, u_created_at = now, u_updated_at = now\<rparr>],
                    seq := next_id db\<rparr>"
proof -
  from assms have m: "m = POST" and v: "RegistrationForm_validate email_ok dbv f = []"
    by (auto simp: register_def split: if_splits list.splits)
  from v obtain un em pw fn n where f: "rf_username f = Some un" "rf_email f = Some em"
    "rf_password f = Some pw" "rf_full_name f = Some fn" "IntegerField_data (rf_age f) = Some n"
    by (auto simp: RegistrationForm_validate_nil DataRequired_Pass NumberRange_Pass)
  then have age: "rf_age f = IntValue n"
    by (auto simp: IntegerField_data_def split: int_input.splits)
  from assms m v f show ?thesis
    by (auto simp: register_def auth_insert_def age split: if_splits option.splits)
qed

lemma IntegerField_data_Some: "IntegerField_data i = Some n \<longleftrightarrow> i = IntValue n"
  by (auto simp: IntegerField_data_def split: int_input.splits)

lemma update_profile_row:
  assumes "update_profile email_ok now dbv db sess m f = (Updated, db', sess')"
  shows "\<exists>uid un em fn n row. sess = Some (uid, un) \<and> sess' = sess \<and> m = POST
           \<and> find_by_id db uid = Some row
           \<and> UpdateProfileForm_validate email_ok dbv sess f = []
           \<and> uf_email f = Some em \<and> uf_full_name f = Some fn \<and> uf_age f = IntValue n
           \<and> db' = db\<lparr>rows := map (\<lambda>r. if u_id r = uid
                                          then r\<lparr>u_email := em, u_full_name := fn,
                                                 u_age := truthy_int (Some n),
                                                 u_bio := truthy_str (uf_bio f),
                                                 u_updated_at := now\<rparr>
                                          else r) (rows db)\<rparr>"
proof -
  from assms obtain uid un row where s: "sess = Some (uid, un)" "find_by_id db uid = Some row"
    and m: "m = POST" and v: "UpdateProfileForm_validate email_ok dbv sess f = []"
    by (auto simp: update_profile_def split: option.splits if_splits list.splits)
  from v obtain em fn n where f: "uf_email f = Some em" "uf_full_name f = Some fn"
    "uf_age f = IntValue n"
    by (auto simp: UpdateProfileForm_validate_nil DataRequired_Pass NumberRange_Pass
        IntegerField_data_Some)
  from assms s m v f show ?thesis
    by (auto simp: update_profile_def auth_update_def IntegerField_data_def
        split: if_splits option.splits)
qed

lemma na_register_row:
  assumes "na_register email_ok db m f = (Registered, db')"
  shows "\<exists>n. m = POST \<and> ProfileForm_validate email_ok f = [] \<and> pf_age f = IntValue n
           \<and> db' = db\<lparr>rows := rows db @
                      [\<lparr>u_id = next_id db, u_username = strip (or_empty (pf_username f)),
                        u_email = strip (or_empty (pf_email f)),
                        u_full_name = strip (or_empty (pf_full_name f)),
                        u_age = Some n, u_bio = Some (strip (or_empty (pf_bio f)))\<rparr>],
                    seq := next_id db\<rparr>"
proof -
  from assms have m: "m = POST" and v: "ProfileForm_validate email_ok f = []"
    by (auto simp: na_register_def split: if_splits list.splits)
  from v obtain n where f: "pf_age f = IntValue n"
    by (auto simp: ProfileForm_validate_nil NumberRange_Pass IntegerField_data_Some)
  from assms m v f show ?thesis
    by (auto simp: na_register_def na_insert_def IntegerField_data_def split: if_splits)
qed

lemma na_update_row:
  assumes "na_update_handler email_ok db uid m f = (Updated, db')"
  shows "\<exists>n row. m = POST \<and> ProfileForm_validate email_ok f = [] \<and> pf_age f = IntValue n
           \<and> find_by_id db uid = Some row
           \<and> db' = db\<lparr>rows := map (\<lambda>r. if u_id r = uid
                                          then r\<lparr>u_username := strip (or_empty (pf_username f)),
                                                 u_full_name := strip (or_empty (pf_full_name f)),
                                                 u_email := strip (or_empty (pf_email f)),
                                                 u_age := Some n,
                                                 u_bio := Some (strip (or_empty (pf_bio f)))\<rparr>
                                          else r) (rows db)\<rparr>"
proof -
  from assms obtain row where r: "find_by_id db uid = Some row"
    and m: "m = POST" and v: "ProfileForm_validate email_ok f = []"
    by (cases m) (auto simp: na_update_handler_def split: option.splits if_splits list.splits)
  from v obtain n where f: "pf_age f = IntValue n"
    by (auto simp: ProfileForm_validate_nil NumberRange_Pass IntegerField_data_Some)
  from assms r m v f show ?thesis
    by (auto simp: na_update_handler_def na_update_def IntegerField_data_def split: if_splits)
qed

lemma find_by_id_after_update:
  assumes "\<And>r. u_id (g r) = u_id r"
  shows "find (\<lambda>r. u_id r = i) (map (\<lambda>r. if u_id r = i then g r else r) rs)
           = map_option g (find (\<lambda>r. u_id r = i) rs)"
  by (induction rs) (auto simp: assms)

lemma truthy_str_not_empty: "truthy_str d \<noteq> Some []"
  by (simp add: truthy_str_def split: option.splits)

text \<open>
  Claim C3 as stated fails in both variants. The auth variant stores what was submitted:
  a username and a full name with blanks around them and a bio of two blanks pass
  validation and reach the table untrimmed. The no-auth variant stores an empty bio as
  the empty string, not as \<open>NULL\<close>.
\<close>

theorem stored_untrimmed_and_empty_bio:
  "fst (register plain_email sample_hash ''salt'' 1 empty_table empty_table None POST padded) = Registered
   \<and> map (\<lambda>r. (u_username r, u_full_name r, u_bio r))
        (rows (fst (snd (register plain_email sample_hash ''salt'' 1 empty_table empty_table None POST
           padded))))
       = [('' eve '', ''  Eve E '', Some ''  '')]
   \<and> \<not> trimmed '' eve ''
   \<and> na_register plain_email seeded_table POST jane = (Registered, jane_table)
   \<and> pf_bio jane = Some ''''
   \<and> u_bio (last (rows jane_table)) = Some ''''"
  by code_simp

text \<open>
  Claim C3, as the code has it. Auth variant: username, email and full name are stored as
  submitted, and the bio as submitted except that an empty or missing bio is stored as
  absent. No-auth variant: username, full name, email and bio are stored trimmed, and an
  empty or missing bio is stored as the empty string.
\<close>

theorem stored_fields_of_each_variant:
  fixes db db' db2 :: auth_db and ndb ndb' ndb2 :: na_db
  shows
  "(register email_ok gph salt now dbv db sess m f = (Registered, db', sess')
      \<longrightarrow> (\<exists>r. rows db' = rows db @ [r]
             \<and> Some (u_username r) = rf_username f \<and> Some (u_email r) = rf_email f
             \<and> Some (u_full_name r) = rf_full_name f
             \<and> u_bio r = truthy_str (rf_bio f) \<and> u_bio r \<noteq> Some []))
   \<and> (update_profile email_ok now dbv db (Some (uid, un)) m u = (Updated, db2, sess2)
      \<longrightarrow> (\<exists>r. find_by_id db2 uid = Some r
             \<and> Some (u_email r) = uf_email u \<and> Some (u_full_name r) = uf_full_name u
             \<and> u_bio r = truthy_str (uf_bio u) \<and> u_bio r \<noteq> Some []))
   \<and> (na_register email_ok ndb m g = (Registered, ndb')
      \<longrightarrow> (\<exists>r. rows ndb' = rows ndb @ [r]
             \<and> u_username r = strip (or_empty (pf_username g)) \<and> trimmed (u_username r)
             \<and> u_full_name r = strip (or_empty (pf_full_name g)) \<and> trimmed (u_full_name r)
             \<and> u_email r = strip (or_empty (pf_email g)) \<and> trimmed (u_email r)
             \<and> u_bio r = Some (strip (or_empty (pf_bio g))) \<and> trimmed (strip (or_empty (pf_bio g)))))
   \<and> (na_update_handler email_ok ndb nid m g = (Updated, ndb2)
      \<longrightarrow> (\<exists>r. find_by_id ndb2 nid = Some r
             \<and> u_username r = strip (or_empty (pf_username g)) \<and> trimmed (u_username r)
             \<and> u_full_name r = strip (or_empty (pf_full_name g)) \<and> trimmed (u_full_name r)
             \<and> u_email r = strip (or_empty (pf_email g)) \<and> trimmed (u_email r)
             \<and> u_bio r = Some (strip (or_empty (pf_bio g))) \<and> trimmed (strip (or_empty (pf_bio g)))))"
proof (intro conjI impI)
  assume "register email_ok gph salt now dbv db sess m f = (Registered, db', sess')"
  from auth_register_row [OF this] show "\<exists>r. rows db' = rows db @ [r]
             \<and> Some (u_username r) = rf_username f \<and> Some (u_email r) = rf_email f
             \<and> Some (u_full_name r) = rf_full_name f
             \<and> u_bio r = truthy_str (rf_bio f) \<and> u_bio r \<noteq> Some []"
    by (auto simp: truthy_str_not_empty)
next
  assume "update_profile email_ok now dbv db (Some (uid, un)) m u = (Updated, db2, sess2)"
  from update_profile_row [OF this] obtain em fn n row where
    r: "find_by_id db uid = Some row" and f: "uf_email u = Some em" "uf_full_name u = Some fn"
    and db2: "db2 = db\<lparr>rows := map (\<lambda>r. if u_id r = uid
                                          then r\<lparr>u_email := em, u_full_name := fn,
                                                 u_age := truthy_int (Some n),
                                                 u_bio := truthy_str (uf_bio u),
                                                 u_updated_at := now\<rparr>
                                          else r) (rows db)\<rparr>"
    by auto
  have "find_by_id db2 uid = Some (row\<lparr>u_email := em, u_full_name := fn,
      u_age := truthy_int (Some n), u_bio := truthy_str (uf_bio u), u_updated_at := now\<rparr>)"
    using r unfolding db2 find_by_id_def by (simp add: find_by_id_after_update)
  with f show "\<exists>r. find_by_id db2 uid = Some r
             \<and> Some (u_email r) = uf_email u \<and> Some (u_full_name r) = uf_full_name u
             \<and> u_bio r = truthy_str (uf_bio u) \<and> u_bio r \<noteq> Some []"
    by (simp add: truthy_str_not_empty)
next
  assume "na_register email_ok ndb m g = (Registered, ndb')"
  from na_register_row [OF this] show "\<exists>r. rows ndb' = rows ndb @ [r]
             \<and> u_username r = strip (or_empty (pf_username g)) \<and> trimmed (u_username r)
             \<and> u_full_name r = strip (or_empty (pf_full_name g)) \<and> trimmed (u_full_name r)
             \<and> u_email r = strip (or_empty (pf_email g)) \<and> trimmed (u_email r)
             \<and> u_bio r = Some (strip (or_empty (pf_bio g))) \<and> trimmed (strip (or_empty (pf_bio g)))"
    by (auto simp: strip_trimmed)
next
  assume "na_update_handler email_ok ndb nid m g = (Updated, ndb2)"
  from na_update_row [OF this] obtain n row where r: "find_by_id ndb nid = Some row"
    and ndb2: "ndb2 = ndb\<lparr>rows := map (\<lambda>r. if u_id r = nid
                                          then r\<lparr>u_username := strip (or_empty (pf_username g)),
                                                 u_full_name := strip (or_empty (pf_full_name g)),
                                                 u_email := strip (or_empty (pf_email g)),
                                                 u_age := Some n,
                                                 u_bio := Some (strip (or_empty (pf_bio g)))\<rparr>
                                          else r) (rows ndb)\<rparr>"
    by auto
  have "find_by_id ndb2 nid = Some (row\<lparr>u_username := strip (or_empty (pf_username g)),
      u_full_name := strip (or_empty (pf_full_name g)), u_email := strip (or_empty (pf_email g)),
      u_age := Some n, u_bio := Some (strip (or_empty (pf_bio g)))\<rparr>)"
    using r unfolding ndb2 find_by_id_def by (simp add: find_by_id_after_update)
  then show "\<exists>r. find_by_id ndb2 nid = Some r
             \<and> u_username r = strip (or_empty (pf_username g)) \<and> trimmed (u_username r)
             \<and> u_full_name r = strip (or_empty (pf_full_name g)) \<and> trimmed (u_full_name r)
             \<and> u_email r = strip (or_empty (pf_email g)) \<and> trimmed (u_email r)
             \<and> u_bio r = Some (strip (or_empty (pf_bio g))) \<and> trimmed (strip (or_empty (pf_bio g)))"
    by (simp add: strip_trimmed)
qed

theorem stored_fields_of_each_variant_witness:
  "register plain_email sample_hash ''salt'' 1 empty_table empty_table None POST alice
       = (Registered, alice_table, Some (1, ''alice''))
   \<and> (\<exists>r. rows alice_table = rows (empty_table :: auth_db) @ [r]
          \<and> Some (u_username r) = rf_username alice \<and> Some (u_email r) = rf_email alice
          \<and> Some (u_full_name r) = rf_full_name alice
          \<and> u_bio r = truthy_str (rf_bio alice) \<and> u_bio r \<noteq> Some [])
   \<and> fst (update_profile plain_email 9 bob_table bob_table (Some (2, ''bob'')) POST bob_keeps_email)
       = Updated
   \<and> (\<exists>r. find_by_id (fst (snd (update_profile plain_email 9 bob_table bob_table
                (Some (2, ''bob'')) POST bob_keeps_email))) 2 = Some r
          \<and> Some (u_email r) = uf_email bob_keeps_email
          \<and> Some (u_full_name r) = uf_full_name bob_keeps_email
          \<and> u_bio r = truthy_str (uf_bio bob_keeps_email) \<and> u_bio r \<noteq> Some [])
   \<and> na_register plain_email seeded_table POST jane = (Registered, jane_table)
   \<and> (\<exists>r. rows jane_table = rows seeded_table @ [r]
          \<and> u_username r = strip (or_empty (pf_username jane)) \<and> trimmed (u_username r)
          \<and> u_full_name r = strip (or_empty (pf_full_name jane)) \<and> trimmed (u_full_name r)
          \<and> u_email r = strip (or_empty (pf_email jane)) \<and> trimmed (u_email r)
          \<and> u_bio r = Some (strip (or_empty (pf_bio jane)))
          \<and> trimmed (strip (or_empty (pf_bio jane))))
   \<and> fst (na_update_handler plain_email jane_table 3 POST jane_keeps_email) = Updated
   \<and> (\<exists>r. find_by_id (snd (na_update_handler plain_email jane_table 3 POST jane_keeps_email)) 3
            = Some r
          \<and> u_username r = strip (or_empty (pf_username jane_keeps_email)) \<and> trimmed (u_username r)
          \<and> u_full_name r = strip (or_empty (pf_full_name jane_keeps_email))
          \<and> trimmed (u_full_name r)
          \<and> u_email r = strip (or_empty (pf_email jane_keeps_email)) \<and> trimmed (u_email r)
          \<and> u_bio r = Some (strip (or_empty (pf_bio jane_keeps_email)))
          \<and> trimmed (strip (or_empty (pf_bio jane_keeps_email))))"
proof -
  have 1: "register plain_email sample_hash ''salt'' 1 empty_table empty_table None POST alice
       = (Registered, alice_table, Some (1, ''alice''))"
    by code_simp
  have 2: "update_profile plain_email 9 bob_table bob_table (Some (2, ''bob'')) POST bob_keeps_email
       = (Updated, fst (snd (update_profile plain_email 9 bob_table bob_table
                (Some (2, ''bob'')) POST bob_keeps_email)), Some (2, ''bob''))"
    by code_simp
  have 3: "na_register plain_email seeded_table POST jane = (Registered, jane_table)"
    by code_simp
  have 4: "na_update_handler plain_email jane_table 3 POST jane_keeps_email
       = (Updated, snd (na_update_handler plain_email jane_table 3 POST jane_keeps_email))"
    by code_simp
  have 5: "fst (update_profile plain_email 9 bob_table bob_table (Some (2, ''bob'')) POST
      bob_keeps_email) = Updated"
    "fst (na_update_handler plain_email jane_table 3 POST jane_keeps_email) = Updated"
    by code_simp+
  from stored_fields_of_each_variant [where email_ok = plain_email and gph = sample_hash
      and salt = "''salt''" and now = 1 and dbv = empty_table and db = empty_table and sess = None
      and m = POST and f = alice and db' = alice_table and sess' = "Some (1, ''alice'')"] 1
  have a: "\<exists>r. rows alice_table = rows (empty_table :: auth_db) @ [r]
          \<and> Some (u_username r) = rf_username alice \<and> Some (u_email r) = rf_email alice
          \<and> Some (u_full_name r) = rf_full_name alice
          \<and> u_bio r = truthy_str (rf_bio alice) \<and> u_bio r \<noteq> Some []"
    by blast
  from stored_fields_of_each_variant [where email_ok = plain_email and now = 9 and dbv = bob_table
      and db = bob_table and uid = 2 and un = "''bob''" and m = POST and u = bob_keeps_email
      and ?sess2.0 = "Some (2, ''bob'')"
      and ?db2.0 = "fst (snd (update_profile plain_email 9 bob_table bob_table
                (Some (2, ''bob'')) POST bob_keeps_email))"] 2
  have b: "\<exists>r. find_by_id (fst (snd (update_profile plain_email 9 bob_table bob_table
                (Some (2, ''bob'')) POST bob_keeps_email))) 2 = Some r
          \<and> Some (u_email r) = uf_email bob_keeps_email
          \<and> Some (u_full_name r) = uf_full_name bob_keeps_email
          \<and> u_bio r = truthy_str (uf_bio bob_keeps_email) \<and> u_bio r \<noteq> Some []"
    by blast
  from stored_fields_of_each_variant [where email_ok = plain_email and ndb = seeded_table
      and m = POST and g = jane and ndb' = jane_table] 3
  have c: "\<exists>r. rows jane_table = rows seeded_table @ [r]
          \<and> u_username r = strip (or_empty (pf_username jane)) \<and> trimmed (u_username r)
          \<and> u_full_name r = strip (or_empty (pf_full_name jane)) \<and> trimmed (u_full_name r)
          \<and> u_email r = strip (or_empty (pf_email jane)) \<and> trimmed (u_email r)
          \<and> u_bio r = Some (strip (or_empty (pf_bio jane)))
          \<and> trimmed (strip (or_empty (pf_bio jane)))"
    by blast
  from stored_fields_of_each_variant [where email_ok = plain_email and ndb = jane_table
      and nid = 3 and m = POST and g = jane_keeps_email
      and ?ndb2.0 = "snd (na_update_handler plain_email jane_table 3 POST jane_keeps_email)"] 4
  have d: "\<exists>r. find_by_id (snd (na_update_handler plain_email jane_table 3 POST jane_keeps_email)) 3
            = Some r
          \<and> u_username r = strip (or_empty (pf_username jane_keeps_email)) \<and> trimmed (u_username r)
          \<and> u_full_name r = strip (or_empty (pf_full_name jane_keeps_email))
          \<and> trimmed (u_full_name r)
          \<and> u_email r = strip (or_empty (pf_email jane_keeps_email)) \<and> trimmed (u_email r)
          \<and> u_bio r = Some (strip (or_empty (pf_bio jane_keeps_email)))
          \<and> trimmed (strip (or_empty (pf_bio jane_keeps_email)))"
    by blast
  from 1 3 5 a b c d show ?thesis by blast
qed

section \<open>The value of a write handler\<close>

lemma find_by_username_new:
  assumes "\<not> unique_violation_insert rs un em" and "u_username new = un"
  shows "find (\<lambda>r. u_username r = un) (rs @ [new]) = Some new"
  using assms
  by (induction rs) (auto simp: unique_violation_insert_def)

text \<open>The value of each write handler on a form that passed validation.\<close>

lemma register_valid:
  assumes "RegistrationForm_validate email_ok dbv f = []"
  shows "\<exists>un em pw fn n. rf_username f = Some un \<and> rf_email f = Some em \<and> rf_password f = Some pw
           \<and> rf_full_name f = Some fn \<and> rf_age f = IntValue n
           \<and> 6 \<le> length pw \<and> strip pw \<noteq> []
           \<and> register email_ok gph salt now dbv db sess POST f
               = (if unique_violation_insert (rows db) un em then (Conflict, db, sess)
                  else (Registered,
                        db\<lparr>rows := rows db @
                             [\<lparr>u_id = next_id db, u_username = un, u_email = em, u_full_name = fn,
                               u_age = truthy_int (Some n), u_bio = truthy_str (rf_bio f),
                               u_password = gph salt pw, u_created_at = now, u_updated_at = now\<rparr>],
                           seq := next_id db\<rparr>,
                        Some (next_id db, un)))"
proof -
  from assms obtain un em pw fn n where f: "rf_username f = Some un" "rf_email f = Some em"
    "rf_password f = Some pw" "rf_full_name f = Some fn" "rf_age f = IntValue n"
    and pw: "6 \<le> length pw" "strip pw \<noteq> []"
    by (auto simp: RegistrationForm_validate_nil DataRequired_Pass NumberRange_Pass
        IntegerField_data_Some Length_Pass)
  have "register email_ok gph salt now dbv db sess POST f
               = (if unique_violation_insert (rows db) un em then (Conflict, db, sess)
                  else (Registered,
                        db\<lparr>rows := rows db @
                             [\<lparr>u_id = next_id db, u_username = un, u_email = em, u_full_name = fn,
                               u_age = truthy_int (Some n), u_bio = truthy_str (rf_bio f),
                               u_password = gph salt pw, u_created_at = now, u_updated_at = now\<rparr>],
                           seq := next_id db\<rparr>,
                        Some (next_id db, un)))"
    using assms f
    by (simp add: register_def auth_insert_def IntegerField_data_def find_by_username_def
        find_by_username_new)
  with f pw show ?thesis by blast
qed

lemma register_invalid:
  assumes "m \<noteq> POST \<or> RegistrationForm_validate email_ok dbv f \<noteq> []"
  shows "snd (register email_ok gph salt now dbv db sess m f) = (db, sess)"
    and "fst (register email_ok gph salt now dbv db sess m f) \<noteq> Registered"
    and "fst (register email_ok gph salt now dbv db sess m f) \<noteq> Updated"
  using assms by (auto simp: register_def split: list.splits)

lemma update_profile_valid:
  assumes "UpdateProfileForm_validate email_ok dbv (Some (uid, un)) f = []"
    and "find_by_id db uid = Some row"
  shows "\<exists>em fn n. uf_email f = Some em \<and> uf_full_name f = Some fn \<and> uf_age f = IntValue n
           \<and> update_profile email_ok now dbv db (Some (uid, un)) POST f
               = (if email_taken_by_other (rows db) uid em
                  then (Uncaught IntegrityError, db, Some (uid, un))
                  else (Updated,
                        db\<lparr>rows := map (\<lambda>r. if u_id r = uid
                                          then r\<lparr>u_email := em, u_full_name := fn,
                                                 u_age := truthy_int (Some n),
                                                 u_bio := truthy_str (uf_bio f),
                                                 u_updated_at := now\<rparr>
                                          else r) (rows db)\<rparr>,
                        Some (uid, un)))"
proof -
  from assms(1) obtain em fn n where f: "uf_email f = Some em" "uf_full_name f = Some fn"
    "uf_age f = IntValue n"
    by (auto simp: UpdateProfileForm_validate_nil DataRequired_Pass NumberRange_Pass
        IntegerField_data_Some)
  have "update_profile email_ok now dbv db (Some (uid, un)) POST f
               = (if email_taken_by_other (rows db) uid em
                  then (Uncaught IntegrityError, db, Some (uid, un))
                  else (Updated,
                        db\<lparr>rows := map (\<lambda>r. if u_id r = uid
                                          then r\<lparr>u_email := em, u_full_name := fn,
                                                 u_age := truthy_int (Some n),
                                                 u_bio := truthy_str (uf_bio f),
                                                 u_updated_at := now\<rparr>
                                          else r) (rows db)\<rparr>,
                        Some (uid, un)))"
    using assms f by (simp add: update_profile_def auth_update_def IntegerField_data_def)
  with f show ?thesis by blast
qed

lemma update_profile_invalid:
  assumes "sess = None \<or> (\<exists>uid un. sess = Some (uid, un) \<and> find_by_id db uid = None) \<or> m \<noteq> POST
           \<or> UpdateProfileForm_validate email_ok dbv sess f \<noteq> []"
  shows "fst (snd (update_profile email_ok now dbv db sess m f)) = db"
    and "fst (update_profile email_ok now dbv db sess m f) \<noteq> Registered"
    and "fst (update_profile email_ok now dbv db sess m f) \<noteq> Updated"
    and "snd (snd (update_profile email_ok now dbv db sess m f)) = sess
         \<or> snd (snd (update_profile email_ok now dbv db sess m f)) = None"
  using assms by (auto simp: update_profile_def split: list.splits option.splits)

lemma na_register_valid:
  assumes "ProfileForm_validate email_ok f = []"
  shows "\<exists>n. pf_age f = IntValue n
           \<and> na_register email_ok db POST f
               = (if unique_violation_insert (rows db) (strip (or_empty (pf_username f)))
                       (strip (or_empty (pf_email f)))
                  then (Conflict, db)
                  else (Registered,
                        db\<lparr>rows := rows db @
                             [\<lparr>u_id = next_id db, u_username = strip (or_empty (pf_username f)),
                               u_email = strip (or_empty (pf_email f)),
                               u_full_name = strip (or_empty (pf_full_name f)),
                               u_age = Some n, u_bio = Some (strip (or_empty (pf_bio f)))\<rparr>],
                           seq := next_id db\<rparr>))"
proof -
  from assms obtain n where f: "pf_age f = IntValue n"
    by (auto simp: ProfileForm_validate_nil NumberRange_Pass IntegerField_data_Some)
  with assms show ?thesis
    by (simp add: na_register_def na_insert_def IntegerField_data_def)
qed

lemma na_register_invalid:
  assumes "m \<noteq> POST \<or> ProfileForm_validate email_ok f \<noteq> []"
  shows "snd (na_register email_ok db m f) = db"
    and "fst (na_register email_ok db m f) \<noteq> Registered"
    and "fst (na_register email_ok db m f) \<noteq> Updated"
  using assms by (auto simp: na_register_def split: list.splits)

lemma na_update_valid:
  assumes "ProfileForm_validate email_ok f = []" and "find_by_id db uid = Some row"
  shows "\<exists>n. pf_age f = IntValue n
           \<and> na_update_handler email_ok db uid POST f
               = (if unique_violation_update (rows db) uid (strip (or_empty (pf_username f)))
                       (strip (or_empty (pf_email f)))
                  then (Conflict, db)
                  else (Updated,
                        db\<lparr>rows := map (\<lambda>r. if u_id r = uid
                                          then r\<lparr>u_username := strip (or_empty (pf_username f)),
                                                 u_full_name := strip (or_empty (pf_full_name f)),
                                                 u_email := strip (or_empty (pf_email f)),
                                                 u_age := Some n,
                                                 u_bio := Some (strip (or_empty (pf_bio f)))\<rparr>
                                          else r) (rows db)\<rparr>))"
proof -
  from assms obtain n where f: "pf_age f = IntValue n"
    by (auto simp: ProfileForm_validate_nil NumberRange_Pass IntegerField_data_Some)
  with assms show ?thesis
    by (simp add: na_update_handler_def na_update_def IntegerField_data_def)
qed

lemma na_update_invalid:
  assumes "find_by_id db uid = None \<or> m \<noteq> POST \<or> ProfileForm_validate email_ok f \<noteq> []"
  shows "snd (na_update_handler email_ok db uid m f) = db"
    and "fst (na_update_handler email_ok db uid m f) \<noteq> Registered"
    and "fst (na_update_handler email_ok db uid m f) \<noteq> Updated"
  using assms
  by (cases m; auto simp: na_update_handler_def split: list.splits option.splits)+

section \<open>What a request may change\<close>

lemma register_frame:
  assumes "register email_ok gph salt now dbv db sess m f = (out, db', sess')"
  shows "(out = Registered \<and> m = POST
            \<and> (\<exists>r. u_id r = next_id db \<and> rows db' = rows db @ [r] \<and> seq db' = next_id db))
         \<or> (out \<noteq> Registered \<and> out \<noteq> Updated \<and> db' = db)"
proof (cases "m = POST \<and> RegistrationForm_validate email_ok dbv f = []")
  case True
  then have m: "m = POST" and v: "RegistrationForm_validate email_ok dbv f = []" by simp_all
  from register_valid [OF v, of gph salt now db sess] assms m show ?thesis
    by (auto split: if_splits)
next
  case False
  then have "m \<noteq> POST \<or> RegistrationForm_validate email_ok dbv f \<noteq> []" by blast
  from register_invalid [OF this, of gph salt now db sess] assms show ?thesis by auto
qed

lemma update_profile_frame:
  assumes "update_profile email_ok now dbv db sess m f = (out, db', sess')"
  shows "(out = Updated \<and> m = POST
            \<and> (\<exists>uid un em fn. sess = Some (uid, un) \<and> uf_email f = Some em \<and> uf_full_name f = Some fn
                 \<and> db' = db\<lparr>rows := map (\<lambda>r. if u_id r = uid
                                          then r\<lparr>u_email := em, u_full_name := fn,
                                                 u_age := truthy_int (IntegerField_data (uf_age f)),
                                                 u_bio := truthy_str (uf_bio f),
                                                 u_updated_at := now\<rparr>
                                          else r) (rows db)\<rparr>))
         \<or> (out \<noteq> Registered \<and> out \<noteq> Updated \<and> db' = db)"
proof (cases "\<exists>uid un row. sess = Some (uid, un) \<and> find_by_id db uid = Some row \<and> m = POST
    \<and> UpdateProfileForm_validate email_ok dbv sess f = []")
  case True
  then obtain uid un row where s: "sess = Some (uid, un)" and r: "find_by_id db uid = Some row"
    and m: "m = POST" and v: "UpdateProfileForm_validate email_ok dbv (Some (uid, un)) f = []"
    by auto
  from update_profile_valid [OF v r, of now] assms s m show ?thesis
    by (auto simp: IntegerField_data_def split: if_splits)
next
  case False
  then have "sess = None \<or> (\<exists>uid un. sess = Some (uid, un) \<and> find_by_id db uid = None) \<or> m \<noteq> POST
           \<or> UpdateProfileForm_validate email_ok dbv sess f \<noteq> []"
    by (cases sess) auto
  from update_profile_invalid [OF this, of now] assms show ?thesis by auto
qed

lemma na_register_frame:
  assumes "na_register email_ok db m f = (out, db')"
  shows "(out = Registered \<and> m = POST
            \<and> (\<exists>r. u_id r = next_id db \<and> rows db' = rows db @ [r] \<and> seq db' = next_id db))
         \<or> (out \<noteq> Registered \<and> out \<noteq> Updated \<and> db' = db)"
proof (cases "m = POST \<and> ProfileForm_validate email_ok f = []")
  case True
  then have m: "m = POST" and v: "ProfileForm_validate email_ok f = []" by simp_all
  from na_register_valid [OF v, of db] assms m show ?thesis
    by (auto split: if_splits)
next
  case False
  then have "m \<noteq> POST \<or> ProfileForm_validate email_ok f \<noteq> []" by blast
  from na_register_invalid [OF this, of db] assms show ?thesis by auto
qed

lemma na_update_frame:
  assumes "na_update_handler email_ok db uid m f = (out, db')"
  shows "(out = Updated \<and> m = POST
            \<and> db' = db\<lparr>rows := map (\<lambda>r. if u_id r = uid
                                          then r\<lparr>u_username := strip (or_empty (pf_username f)),
                                                 u_full_name := strip (or_empty (pf_full_name f)),
                                                 u_email := strip (or_empty (pf_email f)),
                                                 u_age := IntegerField_data (pf_age f),
                                                 u_bio := Some (strip (or_empty (pf_bio f)))\<rparr>
                                          else r) (rows db)\<rparr>)
         \<or> (out \<noteq> Registered \<and> out \<noteq> Updated \<and> db' = db)"
proof (cases "\<exists>row. find_by_id db uid = Some row \<and> m = POST \<and> ProfileForm_validate email_ok f = []")
  case True
  then obtain row where r: "find_by_id db uid = Some row"
    and m: "m = POST" and v: "ProfileForm_validate email_ok f = []"
    by auto
  from na_update_valid [OF v r] assms m show ?thesis
    by (auto simp: IntegerField_data_def split: if_splits)
next
  case False
  then have "find_by_id db uid = None \<or> m \<noteq> POST \<or> ProfileForm_validate email_ok f \<noteq> []"
    by auto
  from na_update_invalid [OF this] assms show ?thesis by auto
qed

lemma auth_handle_frame:
  assumes "auth_handle email_ok gph req db = (out, db', sess')"
  shows "(out = Registered
            \<and> (\<exists>stale sess f salt now. req = Register stale sess POST f salt now)
            \<and> (\<exists>r. u_id r = next_id db \<and> rows db' = rows db @ [r] \<and> seq db' = next_id db))
         \<or> (out = Updated
            \<and> (\<exists>stale uid un f now em fn.
                  req = UpdateProfile stale (Some (uid, un)) POST f now
                  \<and> uf_email f = Some em \<and> uf_full_name f = Some fn
                  \<and> db' = db\<lparr>rows := map (\<lambda>r. if u_id r = uid
                                          then r\<lparr>u_email := em, u_full_name := fn,
                                                 u_age := truthy_int (IntegerField_data (uf_age f)),
                                                 u_bio := truthy_str (uf_bio f),
                                                 u_updated_at := now\<rparr>
                                          else r) (rows db)\<rparr>))
         \<or> (out \<noteq> Registered \<and> out \<noteq> Updated \<and> db' = db)"
proof (cases req)
  case (Register stale sess m f salt now)
  with assms have "register email_ok gph salt now (case stale of None \<Rightarrow> db | Some dbv \<Rightarrow> dbv)
      db sess m f = (out, db', sess')"
    by (simp add: auth_handle_def)
  from register_frame [OF this] Register show ?thesis by auto
next
  case (UpdateProfile stale sess m f now)
  with assms have "update_profile email_ok now (case stale of None \<Rightarrow> db | Some dbv \<Rightarrow> dbv)
      db sess m f = (out, db', sess')"
    by (simp add: auth_handle_def)
  from update_profile_frame [OF this] UpdateProfile show ?thesis by auto
qed (use assms in \<open>auto simp: auth_handle_def index_def profile_def logout_def split: option.splits\<close>)

lemma na_handle_frame:
  assumes "na_handle email_ok req db = (out, db')"
  shows "(out = Registered
            \<and> (\<exists>f. req = NaRegister POST f)
            \<and> (\<exists>r. u_id r = next_id db \<and> rows db' = rows db @ [r] \<and> seq db' = next_id db))
         \<or> (out = Updated
            \<and> (\<exists>uid f. req = NaUpdate uid POST f
                  \<and> db' = db\<lparr>rows := map (\<lambda>r. if u_id r = uid
                                          then r\<lparr>u_username := strip (or_empty (pf_username f)),
                                                 u_full_name := strip (or_empty (pf_full_name f)),
                                                 u_email := strip (or_empty (pf_email f)),
                                                 u_age := IntegerField_data (pf_age f),
                                                 u_bio := Some (strip (or_empty (pf_bio f)))\<rparr>
                                          else r) (rows db)\<rparr>))
         \<or> (out \<noteq> Registered \<and> out \<noteq> Updated \<and> db' = db)"
proof (cases req)
  case (NaRegister m f)
  with assms have "na_register email_ok db m f = (out, db')"
    by (simp add: na_handle_def)
  from na_register_frame [OF this] NaRegister show ?thesis by auto
next
  case (NaUpdate uid m f)
  with assms have "na_update_handler email_ok db uid m f = (out, db')"
    by (simp add: na_handle_def)
  from na_update_frame [OF this] NaUpdate show ?thesis by auto
qed (use assms in \<open>auto simp: na_handle_def na_index_def na_profile_def split: option.splits\<close>)

lemma auth_handle_frozen:
  "prefix (map frozen_columns (rows db))
     (map frozen_columns (rows (fst (snd (auth_handle email_ok gph req db)))))"
proof -
  obtain out db' sess' where h: "auth_handle email_ok gph req db = (out, db', sess')"
    by (cases "auth_handle email_ok gph req db") auto
  from auth_handle_frame [OF h] have "prefix (map frozen_columns (rows db)) (map frozen_columns (rows db'))"
  proof (elim disjE conjE exE)
    fix stale uid un and f :: upd_form and now em fn
    assume "db' = db\<lparr>rows := map (\<lambda>r. if u_id r = uid
                                          then r\<lparr>u_email := em, u_full_name := fn,
                                                 u_age := truthy_int (IntegerField_data (uf_age f)),
                                                 u_bio := truthy_str (uf_bio f),
                                                 u_updated_at := now\<rparr>
                                          else r) (rows db)\<rparr>"
    then have "map frozen_columns (rows db') = map frozen_columns (rows db)"
      by (simp del: map_map add: map_proj_update_one frozen_columns_def)
    then show ?thesis by simp
  qed auto
  with h show ?thesis by simp
qed

lemma auth_run_frozen:
  "prefix (map frozen_columns (rows db)) (map frozen_columns (rows (auth_run email_ok gph reqs db)))"
proof (induction reqs arbitrary: db)
  case Nil
  show ?case by (simp add: auth_run_def)
next
  case (Cons req reqs)
  have "prefix (map frozen_columns (rows db))
      (map frozen_columns (rows (fst (snd (auth_handle email_ok gph req db)))))"
    by (rule auth_handle_frozen)
  also have "prefix \<dots> (map frozen_columns
      (rows (auth_run email_ok gph reqs (fst (snd (auth_handle email_ok gph req db))))))"
    by (rule Cons.IH)
  finally show ?case by (simp add: auth_run_def)
qed

lemma na_seed_rows:
  "(rows db \<noteq> [] \<longrightarrow> na_seed db = db)
   \<and> (rows db = [] \<longrightarrow>
        na_seed db =
          db\<lparr>rows := [\<lparr>u_id = next_id db, u_username = ''jdoe'', u_email = ''jdoe@example.com'',
                         u_full_name = ''John Doe'', u_age = Some 34,
                         u_bio = Some ''A short bio about John.''\<rparr>,
                       \<lparr>u_id = Suc (next_id db), u_username = ''asmith'',
                         u_email = ''alice@example.com'', u_full_name = ''Alice Smith'',
                         u_age = Some 28, u_bio = Some ''Alice loves coding and coffee.''\<rparr>],
             seq := Suc (next_id db)\<rparr>)"
  by (simp add: na_seed_def na_insert_def unique_violation_insert_def next_id_def)

lemma no_request_seeds:
  "snd (na_handle email_ok req empty_table) \<noteq> seeded_table"
proof
  assume eq: "snd (na_handle email_ok req empty_table) = seeded_table"
  obtain out db' where h: "na_handle email_ok req empty_table = (out, db')"
    by (cases "na_handle email_ok req empty_table") auto
  from na_handle_frame [OF h] have "length (rows db') \<le> 1"
    by (auto simp: empty_table_def)
  moreover from eq h have "db' = seeded_table" by simp
  moreover have "length (rows seeded_table) = 2" by (simp add: seeded_table_def)
  ultimately show False by simp
qed

text \<open>
  Claim C9 as stated fails in the no-auth variant: the start-up code of
  \<open>src/flask_user_profiles_app.py\<close> inserts the rows of \<open>jdoe\<close> and \<open>asmith\<close> into a
  table without rows. No registration is involved, and no single request turns the empty
  table into that table.
\<close>

theorem sample_rows_are_created_without_registration:
  "na_seed empty_table = seeded_table
   \<and> rows (empty_table :: na_db) = []
   \<and> length (rows seeded_table) = 2
   \<and> \<not> (\<exists>email_ok req. snd (na_handle email_ok req empty_table) = seeded_table)"
proof (intro conjI)
  show "na_seed empty_table = seeded_table" by code_simp
  show "rows (empty_table :: na_db) = []" by (simp add: empty_table_def)
  show "length (rows seeded_table) = 2" by (simp add: seeded_table_def)
  show "\<not> (\<exists>email_ok req. snd (na_handle email_ok req empty_table) = seeded_table)"
    using no_request_seeds by blast
qed

text \<open>
  Claim C9, as the code has it. A request that is answered \<open>Registered\<close> is a POSTed
  registration and appends one row, with a fresh id; a request that is answered
  \<open>Updated\<close> is a POSTed update and rewrites, in the row of the given id only, email,
  full name, age and bio (and \<open>updated_at\<close> in the auth variant, the username too in the
  no-auth variant); every other request leaves the table as it is. Besides registration,
  rows are created by the start-up code of the no-auth variant alone: it leaves a table
  that has rows as it is, and puts the two sample rows, with fresh ids, into a table that
  has none. Over any run of requests, also after the start-up code, the rows that exist
  keep their place, their id and, in the auth variant, their username, password and
  \<open>created_at\<close>; no row disappears.
\<close>

theorem what_creates_and_changes_rows:
  fixes db db' :: auth_db and ndb ndb' sdb :: na_db
  shows
  "(auth_handle email_ok gph req db = (out, db', sess') \<longrightarrow>
       (out = Registered
          \<and> (\<exists>stale sess f salt now. req = Register stale sess POST f salt now)
          \<and> (\<exists>r. u_id r = next_id db \<and> rows db' = rows db @ [r] \<and> seq db' = next_id db))
       \<or> (out = Updated
          \<and> (\<exists>stale uid un f now em fn.
                req = UpdateProfile stale (Some (uid, un)) POST f now
                \<and> uf_email f = Some em \<and> uf_full_name f = Some fn
                \<and> db' = db\<lparr>rows := map (\<lambda>r. if u_id r = uid
                                        then r\<lparr>u_email := em, u_full_name := fn,
                                               u_age := truthy_int (IntegerField_data (uf_age f)),
                                               u_bio := truthy_str (uf_bio f),
                                               u_updated_at := now\<rparr>
                                        else r) (rows db)\<rparr>))
       \<or> (out \<noteq> Registered \<and> out \<noteq> Updated \<and> db' = db))
   \<and> (na_handle email_ok nreq ndb = (nout, ndb') \<longrightarrow>
       (nout = Registered
          \<and> (\<exists>f. nreq = NaRegister POST f)
          \<and> (\<exists>r. u_id r = next_id ndb \<and> rows ndb' = rows ndb @ [r] \<and> seq ndb' = next_id ndb))
       \<or> (nout = Updated
          \<and> (\<exists>uid f. nreq = NaUpdate uid POST f
                \<and> ndb' = ndb\<lparr>rows := map (\<lambda>r. if u_id r = uid
                                        then r\<lparr>u_username := strip (or_empty (pf_username f)),
                                               u_full_name := strip (or_empty (pf_full_name f)),
                                               u_email := strip (or_empty (pf_email f)),
                                               u_age := IntegerField_data (pf_age f),
                                               u_bio := Some (strip (or_empty (pf_bio f)))\<rparr>
                                        else r) (rows ndb)\<rparr>))
       \<or> (nout \<noteq> Registered \<and> nout \<noteq> Updated \<and> ndb' = ndb))
   \<and> (rows sdb \<noteq> [] \<longrightarrow> na_seed sdb = sdb)
   \<and> (rows sdb = [] \<longrightarrow>
        na_seed sdb =
          sdb\<lparr>rows := [\<lparr>u_id = next_id sdb, u_username = ''jdoe'', u_email = ''jdoe@example.com'',
                          u_full_name = ''John Doe'', u_age = Some 34,
                          u_bio = Some ''A short bio about John.''\<rparr>,
                        \<lparr>u_id = Suc (next_id sdb), u_username = ''asmith'',
                          u_email = ''alice@example.com'', u_full_name = ''Alice Smith'',
                          u_age = Some 28, u_bio = Some ''Alice loves coding and coffee.''\<rparr>],
              seq := Suc (next_id sdb)\<rparr>)
   \<and> prefix (map frozen_columns (rows db))
        (map frozen_columns (rows (auth_run email_ok gph reqs db)))
   \<and> prefix (ids ndb) (ids (na_run email_ok nreqs ndb))
   \<and> prefix (ids sdb) (ids (na_run email_ok nreqs (na_seed sdb)))
   \<and> length (rows db) \<le> length (rows (auth_run email_ok gph reqs db))
   \<and> length (rows ndb) \<le> length (rows (na_run email_ok nreqs ndb))
   \<and> length (rows sdb) \<le> length (rows (na_run email_ok nreqs (na_seed sdb)))"
proof -
  have "length (map frozen_columns (rows db))
      \<le> length (map frozen_columns (rows (auth_run email_ok gph reqs db)))"
    by (rule prefix_length_le) (rule auth_run_frozen)
  moreover have "length (ids ndb) \<le> length (ids (na_run email_ok nreqs ndb))"
    by (rule prefix_length_le) (rule na_run_ids)
  moreover have seed: "prefix (ids sdb) (ids (na_seed sdb))"
    using na_seed_rows [of sdb] by (cases "rows sdb = []") (simp_all add: ids_def)
  moreover have run: "prefix (ids sdb) (ids (na_run email_ok nreqs (na_seed sdb)))"
    using seed na_run_ids [of "na_seed sdb" email_ok nreqs] by (rule prefix_order.trans)
  moreover have "length (ids sdb) \<le> length (ids (na_run email_ok nreqs (na_seed sdb)))"
    using run by (rule prefix_length_le)
  ultimately show ?thesis
    using auth_handle_frame [of email_ok gph req db out db' sess']
      na_handle_frame [of email_ok nreq ndb nout ndb'] na_seed_rows [of sdb]
      auth_run_frozen [of db email_ok gph reqs] na_run_ids [of ndb email_ok nreqs]
    by (simp add: ids_def)
qed

theorem what_creates_and_changes_rows_witness:
  "auth_handle plain_email sample_hash (Register None None POST alice ''salt'' 1) empty_table
       = (Registered, alice_table, Some (1, ''alice''))
   \<and> (\<exists>r. u_id r = next_id (empty_table :: auth_db)
          \<and> rows alice_table = rows (empty_table :: auth_db) @ [r]
          \<and> seq alice_table = next_id (empty_table :: auth_db))
   \<and> auth_handle plain_email sample_hash
         (UpdateProfile None (Some (1, ''alice'')) POST alice_to_carol 3) bob_table
       = (Updated, bob_table_later, Some (1, ''alice''))
   \<and> bob_table_later
       = bob_table\<lparr>rows := map (\<lambda>r. if u_id r = 1
                                     then r\<lparr>u_email := ''carol@mail.com'', u_full_name := ''Alice A'',
                                            u_age := Some 30, u_bio := None, u_updated_at := 3\<rparr>
                                     else r) (rows bob_table)\<rparr>
   \<and> auth_handle plain_email sample_hash (Logout (Some (1, ''alice''))) bob_table
       = (LoggedOut, bob_table, None)
   \<and> na_handle plain_email (NaRegister POST jane) seeded_table = (Registered, jane_table)
   \<and> (\<exists>r. u_id r = next_id seeded_table \<and> rows jane_table = rows seeded_table @ [r]
          \<and> seq jane_table = next_id seeded_table)
   \<and> na_handle plain_email (NaUpdate 3 POST jane_keeps_email) jane_table
       = (Updated, jane_table_updated)
   \<and> jane_table_updated
       = jane_table\<lparr>rows := map (\<lambda>r. if u_id r = 3
                                      then r\<lparr>u_username := ''jane'', u_full_name := ''Jane R'',
                                             u_email := ''jane@mail.org'', u_age := Some 1,
                                             u_bio := Some ''''\<rparr>
                                      else r) (rows jane_table)\<rparr>
   \<and> na_handle plain_email (NaProfile 1) seeded_table = (Uncaught TemplateError, seeded_table)
   \<and> rows (empty_table :: na_db) = []
   \<and> na_seed empty_table = seeded_table
   \<and> rows seeded_table \<noteq> []
   \<and> na_seed seeded_table = seeded_table
   \<and> prefix (map frozen_columns (rows bob_table))
        (map frozen_columns (rows (auth_run plain_email sample_hash
           [UpdateProfile None (Some (1, ''alice'')) POST alice_to_carol 3,
            Register None None POST padded ''salt'' 4] bob_table)))
   \<and> length (rows (empty_table :: na_db))
        \<le> length (rows (na_run plain_email [NaRegister POST jane, NaUpdate 3 POST jane_keeps_email]
             (na_seed empty_table)))"
proof -
  have 1: "auth_handle plain_email sample_hash (Register None None POST alice ''salt'' 1) empty_table
       = (Registered, alice_table, Some (1, ''alice''))"
    by code_simp
  have 2: "auth_handle plain_email sample_hash
         (UpdateProfile None (Some (1, ''alice'')) POST alice_to_carol 3) bob_table
       = (Updated, bob_table_later, Some (1, ''alice''))"
    by code_simp
  have 3: "auth_handle plain_email sample_hash (Logout (Some (1, ''alice''))) bob_table
       = (LoggedOut, bob_table, None)"
    by code_simp
  have 4: "na_handle plain_email (NaRegister POST jane) seeded_table = (Registered, jane_table)"
    by code_simp
  have 5: "na_handle plain_email (NaUpdate 3 POST jane_keeps_email) jane_table
       = (Updated, jane_table_updated)"
    by code_simp
  have 6: "na_handle plain_email (NaProfile 1) seeded_table = (Uncaught TemplateError, seeded_table)"
    by code_simp
  have 7: "rows (empty_table :: na_db) = []" "rows seeded_table \<noteq> []"
    by (simp_all add: empty_table_def seeded_table_def)
  have 8: "next_id (empty_table :: na_db) = 1" by code_simp
  have forms: "uf_email alice_to_carol = Some ''carol@mail.com''"
    "uf_full_name alice_to_carol = Some ''Alice A''"
    "truthy_int (IntegerField_data (uf_age alice_to_carol)) = Some 30"
    "truthy_str (uf_bio alice_to_carol) = None"
    "strip (or_empty (pf_username jane_keeps_email)) = ''jane''"
    "strip (or_empty (pf_full_name jane_keeps_email)) = ''Jane R''"
    "strip (or_empty (pf_email jane_keeps_email)) = ''jane@mail.org''"
    "IntegerField_data (pf_age jane_keeps_email) = Some 1"
    "strip (or_empty (pf_bio jane_keeps_email)) = ''''"
    by code_simp+
  from 1 what_creates_and_changes_rows [where email_ok = plain_email
      and gph = sample_hash and req = "Register None None POST alice ''salt'' 1"
      and db = empty_table and out = Registered and db' = alice_table
      and sess' = "Some (1, ''alice'')"]
  have a: "\<exists>r. u_id r = next_id (empty_table :: auth_db)
          \<and> rows alice_table = rows (empty_table :: auth_db) @ [r]
          \<and> seq alice_table = next_id (empty_table :: auth_db)"
    by simp
  from what_creates_and_changes_rows [where email_ok = plain_email
      and gph = sample_hash
      and req = "UpdateProfile None (Some (1, ''alice'')) POST alice_to_carol 3"
      and db = bob_table and out = Updated and db' = bob_table_later
      and sess' = "Some (1, ''alice'')", THEN conjunct1, THEN mp, OF 2]
  have b: "bob_table_later
       = bob_table\<lparr>rows := map (\<lambda>r. if u_id r = 1
                                     then r\<lparr>u_email := ''carol@mail.com'', u_full_name := ''Alice A'',
                                            u_age := Some 30, u_bio := None, u_updated_at := 3\<rparr>
                                     else r) (rows bob_table)\<rparr>"
    by (auto simp: forms cong: if_cong)
  from 4 what_creates_and_changes_rows [where email_ok = plain_email
      and nreq = "NaRegister POST jane" and ndb = seeded_table and nout = Registered
      and ndb' = jane_table]
  have c: "\<exists>r. u_id r = next_id seeded_table \<and> rows jane_table = rows seeded_table @ [r]
          \<and> seq jane_table = next_id seeded_table"
    by simp
  from what_creates_and_changes_rows [where email_ok = plain_email
      and nreq = "NaUpdate 3 POST jane_keeps_email" and ndb = jane_table and nout = Updated
      and ndb' = jane_table_updated, THEN conjunct2, THEN conjunct1, THEN mp, OF 5]
  have d: "jane_table_updated
       = jane_table\<lparr>rows := map (\<lambda>r. if u_id r = 3
                                      then r\<lparr>u_username := ''jane'', u_full_name := ''Jane R'',
                                             u_email := ''jane@mail.org'', u_age := Some 1,
                                             u_bio := Some ''''\<rparr>
                                      else r) (rows jane_table)\<rparr>"
    by (auto simp: forms cong: if_cong)
  from 8 what_creates_and_changes_rows [where sdb = empty_table, THEN conjunct2, THEN conjunct2,
      THEN conjunct2, THEN conjunct1, THEN mp, OF 7(1)]
  have e: "na_seed empty_table = seeded_table"
    by (simp add: seeded_table_def empty_table_def)
  from what_creates_and_changes_rows [where sdb = seeded_table, THEN conjunct2, THEN conjunct2,
      THEN conjunct1, THEN mp, OF 7(2)]
  have f: "na_seed seeded_table = seeded_table" .
  from what_creates_and_changes_rows [where email_ok = plain_email
      and gph = sample_hash and db = bob_table and sdb = empty_table
      and reqs = "[UpdateProfile None (Some (1, ''alice'')) POST alice_to_carol 3,
            Register None None POST padded ''salt'' 4]"
      and nreqs = "[NaRegister POST jane, NaUpdate 3 POST jane_keeps_email]"]
  have g: "prefix (map frozen_columns (rows bob_table))
        (map frozen_columns (rows (auth_run plain_email sample_hash
           [UpdateProfile None (Some (1, ''alice'')) POST alice_to_carol 3,
            Register None None POST padded ''salt'' 4] bob_table)))
   \<and> length (rows (empty_table :: na_db))
        \<le> length (rows (na_run plain_email [NaRegister POST jane, NaUpdate 3 POST jane_keeps_email]
             (na_seed empty_table)))"
    by simp
  from 1 2 3 4 5 6 7 a b c d e f g show ?thesis by simp
qed

section \<open>The password column\<close>

lemma register_password:
  assumes "register email_ok gph salt now dbv db sess m f = (Registered, db', sess')"
  shows "\<exists>pw r. rf_password f = Some pw \<and> 6 \<le> length pw \<and> strip pw \<noteq> []
           \<and> rows db' = rows db @ [r] \<and> u_password r = gph salt pw"
proof -
  from assms have m: "m = POST" and v: "RegistrationForm_validate email_ok dbv f = []"
    by (auto simp: register_def split: if_splits list.splits)
  from register_valid [OF v, of gph salt now db sess] assms m show ?thesis
    by (auto split: if_splits)
qed

text \<open>
  What \<open>src/app.py\<close> itself fixes about the password. A registration succeeds only with
  a password that is present, not blank and at least 6 characters long; the password
  column of the new row is the value that \<open>generate_password_hash\<close> returned for that
  password; no request changes the password column of an existing row. Claim C7 asks for
  more, namely that this value is a salted one-way hash and is never the plaintext. That
  is a property of the library's function, which is a parameter here: nothing below
  states it.
\<close>

theorem password_is_passed_through_the_hash_function:
  "(register email_ok gph salt now dbv db sess m f = (Registered, db', sess')
      \<longrightarrow> (\<exists>pw r. rf_password f = Some pw \<and> 6 \<le> length pw \<and> strip pw \<noteq> []
             \<and> rows db' = rows db @ [r] \<and> u_password r = gph salt pw))
   \<and> prefix (map u_password (rows db)) (map u_password (rows (auth_run email_ok gph reqs db)))"
proof (intro conjI impI)
  assume "register email_ok gph salt now dbv db sess m f = (Registered, db', sess')"
  then show "\<exists>pw r. rf_password f = Some pw \<and> 6 \<le> length pw \<and> strip pw \<noteq> []
             \<and> rows db' = rows db @ [r] \<and> u_password r = gph salt pw"
    by (rule register_password)
next
  have "prefix (map (\<lambda>c. fst (snd (snd c))) (map frozen_columns (rows db)))
      (map (\<lambda>c. fst (snd (snd c))) (map frozen_columns (rows (auth_run email_ok gph reqs db))))"
    by (rule map_mono_prefix) (rule auth_run_frozen)
  then show "prefix (map u_password (rows db)) (map u_password (rows (auth_run email_ok gph reqs db)))"
    by (simp add: frozen_columns_def comp_def)
qed

theorem password_is_passed_through_the_hash_function_witness:
  "register plain_email sample_hash ''salt'' 1 empty_table empty_table None POST alice
       = (Registered, alice_table, Some (1, ''alice''))
   \<and> (\<exists>pw r. rf_password alice = Some pw \<and> 6 \<le> length pw \<and> strip pw \<noteq> []
          \<and> rows alice_table = rows (empty_table :: auth_db) @ [r]
          \<and> u_password r = sample_hash ''salt'' pw)
   \<and> map u_password (rows alice_table) = [sample_hash ''salt'' ''secret1'']"
proof -
  have 1: "register plain_email sample_hash ''salt'' 1 empty_table empty_table None POST alice
       = (Registered, alice_table, Some (1, ''alice''))"
    by code_simp
  have 2: "map u_password (rows alice_table) = [sample_hash ''salt'' ''secret1'']"
    by code_simp
  from password_is_passed_through_the_hash_function [where email_ok = plain_email
      and gph = sample_hash and salt = "''salt''" and now = 1 and dbv = empty_table
      and db = empty_table and sess = None and m = POST and f = alice and db' = alice_table
      and sess' = "Some (1, ''alice'')", THEN conjunct1, THEN mp, OF 1]
  have "\<exists>pw r. rf_password alice = Some pw \<and> 6 \<le> length pw \<and> strip pw \<noteq> []
          \<and> rows alice_table = rows (empty_table :: auth_db) @ [r]
          \<and> u_password r = sample_hash ''salt'' pw" .
  with 1 2 show ?thesis by blast
qed

section \<open>No request reads the password column\<close>

lemma find_map_same:
  assumes "\<And>r. P (g r) = P r"
  shows "find P (map g rs) = map_option g (find P rs)"
  by (induction rs) (auto simp: assms)

lemma list_ex_map_same:
  assumes "\<And>r. P (g r) = P r"
  shows "list_ex P (map g rs) = list_ex P rs"
  by (induction rs) (auto simp: assms)

lemma wp_find_by_id:
  "find_by_id (with_passwords h db) i = map_option (\<lambda>r. r\<lparr>u_password := h r\<rparr>) (find_by_id db i)"
  by (simp add: find_by_id_def with_passwords_def find_map_same)

lemma wp_find_by_username:
  "find_by_username (with_passwords h db) un
     = map_option (\<lambda>r. r\<lparr>u_password := h r\<rparr>) (find_by_username db un)"
  by (simp add: find_by_username_def with_passwords_def find_map_same)

lemma wp_find_by_email:
  "find_by_email (with_passwords h db) em
     = map_option (\<lambda>r. r\<lparr>u_password := h r\<rparr>) (find_by_email db em)"
  by (simp add: find_by_email_def with_passwords_def find_map_same)

lemma wp_find_by_email_excluding_id:
  "find_by_email_excluding_id (with_passwords h db) em i
     = map_option (\<lambda>r. r\<lparr>u_password := h r\<rparr>) (find_by_email_excluding_id db em i)"
  by (simp add: find_by_email_excluding_id_def with_passwords_def find_map_same)

lemma wp_violations:
  "unique_violation_insert (rows (with_passwords h db)) un em = unique_violation_insert (rows db) un em"
  "email_taken_by_other (rows (with_passwords h db)) i em = email_taken_by_other (rows db) i em"
  by (simp_all add: unique_violation_insert_def email_taken_by_other_def with_passwords_def
      list_ex_map_same)

lemma wp_next_id: "next_id (with_passwords h db) = next_id db"
  by (simp add: next_id_def with_passwords_def comp_def)

lemma wp_validate_register:
  "RegistrationForm_validate email_ok (with_passwords h dbv) f
     = RegistrationForm_validate email_ok dbv f"
  by (simp add: RegistrationForm_validate_def RegistrationForm_validate_username_def
      RegistrationForm_validate_email_def wp_find_by_username wp_find_by_email
      split: option.splits)

lemma wp_validate_update:
  "UpdateProfileForm_validate email_ok (with_passwords h dbv) sess f
     = UpdateProfileForm_validate email_ok dbv sess f"
  by (simp add: UpdateProfileForm_validate_def UpdateProfileForm_validate_email_def
      wp_find_by_email_excluding_id split: option.splits prod.splits)

lemma register_ignores_passwords:
  "fst (register email_ok gph salt now dbv (with_passwords h db) sess m f)
     = fst (register email_ok gph salt now dbv db sess m f)
   \<and> snd (snd (register email_ok gph salt now dbv (with_passwords h db) sess m f))
     = snd (snd (register email_ok gph salt now dbv db sess m f))"
proof (cases "m = POST \<and> RegistrationForm_validate email_ok dbv f = []")
  case True
  then have m: "m = POST" and v: "RegistrationForm_validate email_ok dbv f = []" by simp_all
  from register_valid [OF v, of gph salt now db sess]
    register_valid [OF v, of gph salt now "with_passwords h db" sess] m
  show ?thesis by (auto simp: wp_violations wp_next_id)
next
  case False
  then show ?thesis by (auto simp: register_def split: list.splits)
qed

lemma update_profile_ignores_passwords:
  "fst (update_profile email_ok now dbv (with_passwords h db) sess m f)
     = fst (update_profile email_ok now dbv db sess m f)
   \<and> snd (snd (update_profile email_ok now dbv (with_passwords h db) sess m f))
     = snd (snd (update_profile email_ok now dbv db sess m f))"
proof (cases "\<exists>uid un row. sess = Some (uid, un) \<and> find_by_id db uid = Some row \<and> m = POST
    \<and> UpdateProfileForm_validate email_ok dbv sess f = []")
  case True
  then obtain uid un row where s: "sess = Some (uid, un)" and r: "find_by_id db uid = Some row"
    and m: "m = POST" and v: "UpdateProfileForm_validate email_ok dbv (Some (uid, un)) f = []"
    by auto
  from r have r': "find_by_id (with_passwords h db) uid = Some (row\<lparr>u_password := h row\<rparr>)"
    by (simp add: wp_find_by_id)
  from update_profile_valid [OF v r, of now] update_profile_valid [OF v r', of now] s m
  show ?thesis by (auto simp: wp_violations)
next
  case False
  then show ?thesis
    by (cases sess) (auto simp: update_profile_def wp_find_by_id split: list.splits option.splits)
qed

lemma profile_ignores_passwords:
  "fst (profile (with_passwords h db) sess) = fst (profile db sess)
   \<and> snd (snd (profile (with_passwords h db) sess)) = snd (snd (profile db sess))"
  by (auto simp: profile_def wp_find_by_id split: option.splits)

lemma register_validation_table:
  "register email_ok gph salt now (with_passwords h dbv) db sess m f
     = register email_ok gph salt now dbv db sess m f"
  unfolding register_def wp_validate_register by (rule refl)

lemma update_profile_validation_table:
  "update_profile email_ok now (with_passwords h dbv) db sess m f
     = update_profile email_ok now dbv db sess m f"
  unfolding update_profile_def wp_validate_update by (rule refl)

lemma auth_handle_ignores_passwords:
  "fst (auth_handle email_ok gph req (with_passwords h db)) = fst (auth_handle email_ok gph req db)
   \<and> snd (snd (auth_handle email_ok gph req (with_passwords h db)))
       = snd (snd (auth_handle email_ok gph req db))"
proof (cases req)
  case (Register stale sess m f salt now)
  show ?thesis
  proof (cases stale)
    case None
    with Register register_ignores_passwords [of email_ok gph salt now db h db sess m f]
    show ?thesis
      by (simp add: auth_handle_def register_validation_table)
  next
    case (Some dbv)
    with Register register_ignores_passwords [of email_ok gph salt now dbv h db sess m f]
    show ?thesis by (simp add: auth_handle_def)
  qed
next
  case (UpdateProfile stale sess m f now)
  show ?thesis
  proof (cases stale)
    case None
    with UpdateProfile update_profile_ignores_passwords [of email_ok now db h db sess m f]
    show ?thesis
      by (simp add: auth_handle_def update_profile_validation_table)
  next
    case (Some dbv)
    with UpdateProfile update_profile_ignores_passwords [of email_ok now dbv h db sess m f]
    show ?thesis by (simp add: auth_handle_def)
  qed
next
  case (Profile sess)
  with profile_ignores_passwords [of h db sess] show ?thesis by (simp add: auth_handle_def)
qed (simp_all add: auth_handle_def index_def logout_def split: option.splits)

lemma session_origin:
  assumes "snd (snd (auth_handle email_ok gph req db)) = Some s"
  shows "request_session req = Some s
         \<or> ((\<exists>stale sess f salt now. req = Register stale sess POST f salt now)
            \<and> fst (auth_handle email_ok gph req db) = Registered)"
proof (cases req)
  case (Register stale sess m f salt now)
  let ?dbv = "case stale of None \<Rightarrow> db | Some dbv \<Rightarrow> dbv"
  show ?thesis
  proof (cases "m = POST \<and> RegistrationForm_validate email_ok ?dbv f = []")
    case True
    then have m: "m = POST" and v: "RegistrationForm_validate email_ok ?dbv f = []" by simp_all
    from register_valid [OF v, of gph salt now db sess] assms Register m show ?thesis
      by (auto simp: auth_handle_def request_session_def split: if_splits)
  next
    case False
    then have "m \<noteq> POST \<or> RegistrationForm_validate email_ok ?dbv f \<noteq> []" by blast
    from register_invalid(1) [OF this, of gph salt now db sess] assms Register show ?thesis
      by (simp add: auth_handle_def request_session_def)
  qed
next
  case (UpdateProfile stale sess m f now)
  with assms show ?thesis
    by (auto simp: auth_handle_def request_session_def update_profile_def
        split: option.splits if_splits list.splits sum.splits)
qed (use assms in \<open>auto simp: auth_handle_def request_session_def index_def profile_def logout_def
      split: option.splits\<close>)

text \<open>
  Claim C8 as stated fails: \<open>check_password_hash\<close> is imported by \<open>src/app.py\<close> and
  never called, and the routes are \<open>index\<close>, \<open>register\<close>, \<open>profile\<close>,
  \<open>update_profile\<close> and \<open>logout\<close>. There is no request whose answer or whose
  session afterwards differs between two tables that differ in their password columns
  only; a request that compared a submitted password with the stored hash would be one.
\<close>

theorem no_login_operation:
  "\<not> (\<exists>email_ok gph req h db.
        fst (auth_handle email_ok gph req (with_passwords h db))
          \<noteq> fst (auth_handle email_ok gph req db)
        \<or> snd (snd (auth_handle email_ok gph req (with_passwords h db)))
          \<noteq> snd (snd (auth_handle email_ok gph req db)))"
  using auth_handle_ignores_passwords by blast

text \<open>
  Claim C8, as the code has it. No request's answer and no request's session afterwards
  depends on the stored passwords, and a session that holds a user after a request was
  either carried by the request's cookie or set by a successful registration.
\<close>

theorem no_request_verifies_a_password:
  "fst (auth_handle email_ok gph req (with_passwords h db)) = fst (auth_handle email_ok gph req db)
   \<and> snd (snd (auth_handle email_ok gph req (with_passwords h db)))
       = snd (snd (auth_handle email_ok gph req db))
   \<and> (snd (snd (auth_handle email_ok gph req db)) = Some s
        \<longrightarrow> request_session req = Some s
            \<or> ((\<exists>stale sess f salt now. req = Register stale sess POST f salt now)
               \<and> fst (auth_handle email_ok gph req db) = Registered))"
  using auth_handle_ignores_passwords [of email_ok gph req h db]
    session_origin [of email_ok gph req db s]
  by blast

theorem no_request_verifies_a_password_witness:
  "snd (snd (auth_handle plain_email sample_hash (Register None None POST alice ''salt'' 1)
       empty_table)) = Some (1, ''alice'')
   \<and> request_session (Register None None POST alice ''salt'' 1) = None
   \<and> fst (auth_handle plain_email sample_hash (Register None None POST alice ''salt'' 1)
       empty_table) = Registered
   \<and> fst (auth_handle plain_email sample_hash (Profile (Some (2, ''bob'')))
         (with_passwords (\<lambda>r. ''forgotten'') bob_table))
       = fst (auth_handle plain_email sample_hash (Profile (Some (2, ''bob''))) bob_table)"
proof -
  have 1: "snd (snd (auth_handle plain_email sample_hash (Register None None POST alice ''salt'' 1)
       empty_table)) = Some (1, ''alice'')"
    by code_simp
  have 2: "request_session (Register None None POST alice ''salt'' 1) = None"
    by (simp add: request_session_def)
  from 1 2 no_request_verifies_a_password [where email_ok = plain_email and gph = sample_hash
      and req = "Register None None POST alice ''salt'' 1" and db = empty_table
      and s = "(1, ''alice'')"]
  have 3: "fst (auth_handle plain_email sample_hash (Register None None POST alice ''salt'' 1)
       empty_table) = Registered"
    by simp
  from 1 2 3 no_request_verifies_a_password [where email_ok = plain_email and gph = sample_hash
      and req = "Profile (Some (2, ''bob''))" and h = "\<lambda>r. ''forgotten''" and db = bob_table]
  show ?thesis by simp
qed

end
